theory Spec2Isabelle
  imports Main "HOL-Library.Sublist"
begin

section \<open>Stop-reason mapping\<close>

text \<open>
  \<^verbatim>\<open>MapStopReason\<close> of \<^verbatim>\<open>internal/domain/service/converter.go\<close> (the Gin-based
  implementation) and \<^verbatim>\<open>mapStopReason\<close> of the monolithic \<^verbatim>\<open>main\<close> package. Both are
  a Go \<^verbatim>\<open>switch\<close> on the finish reason whose cases are tried in order; the result is
  the wire string of the stop reason (\<^verbatim>\<open>max_tokens\<close>, \<^verbatim>\<open>end_turn\<close>, \<^verbatim>\<open>tool_use\<close>).
\<close>

definition MapStopReason :: "string \<Rightarrow> bool \<Rightarrow> string" where
  "MapStopReason finish hasToolCalls =
     (if finish = ''length'' then ''max_tokens''
      else if finish = ''stop'' then ''end_turn''
      else if finish = ''tool_calls'' \<or> finish = ''function_call'' then ''tool_use''
      else if hasToolCalls then ''tool_use''
      else ''end_turn'')"

definition mapStopReason :: "string \<Rightarrow> bool \<Rightarrow> string" where
  "mapStopReason finish hasToolCalls =
     (if finish = ''length'' then ''max_tokens''
      else if finish = ''stop'' then ''end_turn''
      else if finish = ''tool_calls'' \<or> finish = ''function_call'' then ''tool_use''
      else if hasToolCalls then ''tool_use''
      else ''end_turn'')"

section \<open>Go strings\<close>

text \<open>
  A Go string is a sequence of bytes, here a \<^typ>\<open>string\<close> (a list of 8-bit characters).
  \<^verbatim>\<open>strings.TrimSpace\<close> removes every leading and every trailing white-space code
  point, as \<^verbatim>\<open>unicode.IsSpace\<close> defines it, reading the bytes as UTF-8: the six ASCII
  spaces, U+0085, U+00A0, U+1680, U+2000 to U+200A, U+2028, U+2029, U+202F, U+205F and
  U+3000. Go's decoder accepts only the shortest encoding of a code point, so a white-space
  code point stands at the start (or the end) of a string exactly when one of the byte
  sequences below is a prefix (or a suffix) of it.
\<close>

definition space_encodings :: "string list" where
  "space_encodings =
     [[CHR 0x09], [CHR 0x0A], [CHR 0x0B], [CHR 0x0C], [CHR 0x0D], [CHR 0x20],
      [CHR 0xC2, CHR 0x85], [CHR 0xC2, CHR 0xA0],
      [CHR 0xE1, CHR 0x9A, CHR 0x80],
      [CHR 0xE2, CHR 0x80, CHR 0x80], [CHR 0xE2, CHR 0x80, CHR 0x81],
      [CHR 0xE2, CHR 0x80, CHR 0x82], [CHR 0xE2, CHR 0x80, CHR 0x83],
      [CHR 0xE2, CHR 0x80, CHR 0x84], [CHR 0xE2, CHR 0x80, CHR 0x85],
      [CHR 0xE2, CHR 0x80, CHR 0x86], [CHR 0xE2, CHR 0x80, CHR 0x87],
      [CHR 0xE2, CHR 0x80, CHR 0x88], [CHR 0xE2, CHR 0x80, CHR 0x89],
      [CHR 0xE2, CHR 0x80, CHR 0x8A],
      [CHR 0xE2, CHR 0x80, CHR 0xA8], [CHR 0xE2, CHR 0x80, CHR 0xA9],
      [CHR 0xE2, CHR 0x80, CHR 0xAF],
      [CHR 0xE2, CHR 0x81, CHR 0x9F],
      [CHR 0xE3, CHR 0x80, CHR 0x80]]"

text \<open>The number of bytes of the white-space code point a string starts with (0: none).\<close>

definition leading_space :: "string \<Rightarrow> nat" where
  "leading_space s =
     (case filter (\<lambda>w. prefix w s) space_encodings of [] \<Rightarrow> 0 | w # _ \<Rightarrow> length w)"

definition trailing_space :: "string \<Rightarrow> nat" where
  "trailing_space s =
     (case filter (\<lambda>w. suffix w s) space_encodings of [] \<Rightarrow> 0 | w # _ \<Rightarrow> length w)"

lemma leading_space_le: "leading_space s \<le> length s"
proof (cases "filter (\<lambda>w. prefix w s) space_encodings")
  case Nil
  then show ?thesis by (simp add: leading_space_def)
next
  case (Cons w ws)
  then have "w \<in> set (filter (\<lambda>w. prefix w s) space_encodings)" by simp
  then have "prefix w s" by simp
  then show ?thesis using Cons by (simp add: leading_space_def prefix_length_le)
qed

lemma trailing_space_le: "trailing_space s \<le> length s"
proof (cases "filter (\<lambda>w. suffix w s) space_encodings")
  case Nil
  then show ?thesis by (simp add: trailing_space_def)
next
  case (Cons w ws)
  then have "w \<in> set (filter (\<lambda>w. suffix w s) space_encodings)" by simp
  then have "suffix w s" by simp
  then show ?thesis using Cons by (simp add: trailing_space_def suffix_length_le)
qed

function TrimLeft :: "string \<Rightarrow> string" where
  "TrimLeft s = (if leading_space s = 0 then s else TrimLeft (drop (leading_space s) s))"
  by pat_completeness auto
termination
proof (relation "measure length")
  show "wf (measure length)" by simp
next
  fix s :: string
  assume "leading_space s \<noteq> 0"
  then show "(drop (leading_space s) s, s) \<in> measure length"
    using leading_space_le [of s] by simp
qed

function TrimRight :: "string \<Rightarrow> string" where
  "TrimRight s =
     (if trailing_space s = 0 then s else TrimRight (take (length s - trailing_space s) s))"
  by pat_completeness auto
termination
proof (relation "measure length")
  show "wf (measure length)" by simp
next
  fix s :: string
  assume "trailing_space s \<noteq> 0"
  then show "(take (length s - trailing_space s) s, s) \<in> measure length"
    using trailing_space_le [of s] by simp
qed

definition TrimSpace :: "string \<Rightarrow> string" where
  "TrimSpace s = TrimRight (TrimLeft s)"

section \<open>The stream reframer\<close>

subsection \<open>Upstream chunks\<close>

text \<open>
  \<^verbatim>\<open>OpenAIStreamResponse\<close> and its anonymous inner structs, field by field. A Go
  \<^verbatim>\<open>int\<close> is modelled as an unbounded \<^typ>\<open>int\<close>: the only arithmetic on one is the
  block counter's increment, which cannot reach \<open>2^63\<close> in a request.
\<close>

record OpenAIUsage =
  PromptTokens :: int
  CompletionTokens :: int
  TotalTokens :: int

record ToolCallDelta =
  call_Index :: int
  call_ID :: string
  call_Type :: string
  call_Function_Name :: string
  call_Function_Arguments :: string

record StreamChoice =
  choice_Index :: int
  Delta_Role :: string
  Delta_Content :: string
  Delta_ToolCalls :: "ToolCallDelta list"
  choice_FinishReason :: "string option"

record OpenAIStreamResponse =
  chunk_ID :: string
  chunk_Object :: string
  chunk_Created :: int
  chunk_Model :: string
  chunk_Usage :: "OpenAIUsage option"
  chunk_Choices :: "StreamChoice list"

text \<open>
  One call of \<^verbatim>\<open>readSSEData\<close> returns a data string and an error. The loop of
  \<^verbatim>\<open>streamOpenAIToAnthropic\<close> distinguishes the empty string, the marker
  \<^verbatim>\<open>[DONE]\<close> and any other text, which it hands to \<^verbatim>\<open>json.Unmarshal\<close>: the decoded
  chunk, or \<open>None\<close> when decoding fails. The error is \<^verbatim>\<open>nil\<close>, \<^verbatim>\<open>io.EOF\<close> (the flag
  of \<open>Data\<close>) or another error (\<open>ReadFailed\<close>). A reader that has nothing left returns
  the empty string with \<^verbatim>\<open>io.EOF\<close>: the end of the list of reads. An error of
  \<^verbatim>\<open>json.Unmarshal\<close> is a syntax or a type error, never \<^verbatim>\<open>io.EOF\<close>, so the loop
  logs it and goes on to the next read.
\<close>

datatype sse_data = NoData | DoneMarker | Json "OpenAIStreamResponse option"

datatype sse_read = ReadFailed | Data sse_data bool

subsection \<open>Outbound events\<close>

text \<open>
  The events \<^verbatim>\<open>writeAnthropicEvent\<close> writes, with the fields of their payloads that
  vary: \<^verbatim>\<open>message_start\<close> (id, model), \<^verbatim>\<open>content_block_start\<close> of a text block (index)
  and of a tool-use block (index, id, name), \<^verbatim>\<open>content_block_delta\<close> of type
  \<^verbatim>\<open>text_delta\<close> (index, text) and of type \<^verbatim>\<open>input_json_delta\<close> (index, partial_json),
  \<^verbatim>\<open>content_block_stop\<close> (index), \<^verbatim>\<open>message_delta\<close> (stop_reason, output_tokens, and
  input_tokens when present) and \<^verbatim>\<open>message_stop\<close>. The other fields of the payloads
  are constants. Flushing the response writer changes nothing of what is written and is
  left out.
\<close>

datatype event =
    message_start string string
  | content_block_start_text int
  | content_block_start_tool_use int string string
  | content_block_delta_text int string
  | content_block_delta_input_json int string
  | content_block_stop int
  | message_delta string int "int option"
  | message_stop

subsection \<open>State\<close>

record anthropicToolBlock =
  tb_index :: int
  tb_id :: string
  tb_name :: string
  tb_arguments :: string
  tb_started :: bool
  tb_finished :: bool
  tb_openAIIndex :: int

record anthropicStreamState =
  st_messageID :: string
  st_model :: string
  st_started :: bool
  st_textBlockIndex :: int
  st_nextBlockIndex :: int
  st_textBlockStarted :: bool
  st_toolBlocks :: "int \<rightharpoonup> anthropicToolBlock"
  st_promptTokens :: int
  st_completionTokens :: int

text \<open>
  Everything one run of \<^verbatim>\<open>streamOpenAIToAnthropic\<close> carries from one iteration to the
  next: the state struct, the locals \<^verbatim>\<open>lastFinishReason\<close> and \<^verbatim>\<open>hasToolCalls\<close>, the
  events written to the response so far, and how often the clock has been read (each
  generated id reads \<^verbatim>\<open>time.Now().UnixNano()\<close>; the parameter \<open>now\<close> of the functions
  below gives the decimal text of the \<open>k\<close>-th reading).
\<close>

record reframer =
  state :: anthropicStreamState
  lastFinishReason :: "string option"
  hasToolCalls :: bool
  written :: "event list"
  clock_reads :: nat

definition initial_reframer :: reframer where
  "initial_reframer =
     \<lparr>state = \<lparr>st_messageID = '''', st_model = '''', st_started = False,
               st_textBlockIndex = - 1, st_nextBlockIndex = 0, st_textBlockStarted = False,
               st_toolBlocks = Map.empty, st_promptTokens = 0, st_completionTokens = 0\<rparr>,
      lastFinishReason = None, hasToolCalls = False, written = [], clock_reads = 0\<rparr>"

definition writeAnthropicEvent :: "event \<Rightarrow> reframer \<Rightarrow> reframer" where
  "writeAnthropicEvent e r = r\<lparr>written := written r @ [e]\<rparr>"

definition generateToolCallID :: "(nat \<Rightarrow> string) \<Rightarrow> nat \<Rightarrow> string" where
  "generateToolCallID now k = ''call_'' @ now k"

subsection \<open>One chunk\<close>

text \<open>The first chunk decoded: \<^verbatim>\<open>if !state.started { ... }\<close>.\<close>

definition start_message :: "(nat \<Rightarrow> string) \<Rightarrow> string \<Rightarrow> OpenAIStreamResponse \<Rightarrow> reframer \<Rightarrow> reframer" where
  "start_message now fallbackModel chunk r =
     (if st_started (state r) then r
      else
        let r1 = (if chunk_ID chunk = ''''
                  then r\<lparr>state := (state r)\<lparr>st_messageID := ''msg_'' @ now (clock_reads r)\<rparr>,
                         clock_reads := Suc (clock_reads r)\<rparr>
                  else r\<lparr>state := (state r)\<lparr>st_messageID := chunk_ID chunk\<rparr>\<rparr>);
            r2 = r1\<lparr>state := (state r1)\<lparr>st_model :=
                       (if chunk_Model chunk = '''' then fallbackModel else chunk_Model chunk)\<rparr>\<rparr>;
            r3 = writeAnthropicEvent (message_start (st_messageID (state r2)) (st_model (state r2))) r2
        in r3\<lparr>state := (state r3)\<lparr>st_started := True\<rparr>\<rparr>)"

definition store_usage :: "OpenAIStreamResponse \<Rightarrow> reframer \<Rightarrow> reframer" where
  "store_usage chunk r =
     (case chunk_Usage chunk of
        None \<Rightarrow> r
      | Some u \<Rightarrow> r\<lparr>state := (state r)\<lparr>st_promptTokens := PromptTokens u,
                                        st_completionTokens := CompletionTokens u\<rparr>\<rparr>)"

text \<open>A non-empty \<^verbatim>\<open>choice.Delta.Content\<close>.\<close>

definition text_delta :: "string \<Rightarrow> reframer \<Rightarrow> reframer" where
  "text_delta content r =
     (let r1 = (if st_textBlockStarted (state r) then r
                else
                  let st = state r;
                      st1 = st\<lparr>st_textBlockIndex := st_nextBlockIndex st,
                              st_nextBlockIndex := st_nextBlockIndex st + 1\<rparr>;
                      r' = writeAnthropicEvent (content_block_start_text (st_textBlockIndex st1))
                             (r\<lparr>state := st1\<rparr>)
                  in r'\<lparr>state := (state r')\<lparr>st_textBlockStarted := True\<rparr>\<rparr>)
      in writeAnthropicEvent
           (content_block_delta_text (st_textBlockIndex (state r1)) content) r1)"

text \<open>
  One element of \<^verbatim>\<open>choice.Delta.ToolCalls\<close>. The block is a pointer held in the map, so
  every change to it is a change of the map's entry: the model stores the block back
  under \<^verbatim>\<open>call.Index\<close> after the last change.
\<close>

definition new_tool_block :: "(nat \<Rightarrow> string) \<Rightarrow> ToolCallDelta \<Rightarrow> reframer \<Rightarrow> anthropicToolBlock \<times> reframer" where
  "new_tool_block now call r =
     (let st = state r;
          b = \<lparr>tb_index = st_nextBlockIndex st, tb_id = call_ID call,
               tb_name = call_Function_Name call, tb_arguments = '''',
               tb_started = False, tb_finished = False, tb_openAIIndex = call_Index call\<rparr>;
          (b1, k) = (if tb_id b = ''''
                     then (b\<lparr>tb_id := generateToolCallID now (clock_reads r)\<rparr>, Suc (clock_reads r))
                     else (b, clock_reads r))
      in (b1, r\<lparr>state := st\<lparr>st_toolBlocks := (st_toolBlocks st)(call_Index call \<mapsto> b1),
                              st_nextBlockIndex := st_nextBlockIndex st + 1\<rparr>,
                 clock_reads := k\<rparr>))"

definition absorb_fragment :: "ToolCallDelta \<Rightarrow> anthropicToolBlock \<Rightarrow> anthropicToolBlock" where
  "absorb_fragment call b =
     (let b1 = (if call_Function_Name call \<noteq> '''' then b\<lparr>tb_name := call_Function_Name call\<rparr> else b)
      in if call_Function_Arguments call \<noteq> ''''
         then b1\<lparr>tb_arguments := tb_arguments b1 @ call_Function_Arguments call\<rparr>
         else b1)"

definition tool_call_delta :: "(nat \<Rightarrow> string) \<Rightarrow> ToolCallDelta \<Rightarrow> reframer \<Rightarrow> reframer" where
  "tool_call_delta now call r =
     (let r1 = r\<lparr>hasToolCalls := True\<rparr>;
          (b, r2) = (case st_toolBlocks (state r1) (call_Index call) of
                       Some b \<Rightarrow> (b, r1)
                     | None \<Rightarrow> new_tool_block now call r1);
          b2 = absorb_fragment call b;
          (b3, r3) = (if tb_started b2 then (b2, r2)
                      else (b2\<lparr>tb_started := True\<rparr>,
                            writeAnthropicEvent
                              (content_block_start_tool_use (tb_index b2) (tb_id b2) (tb_name b2)) r2))
      in r3\<lparr>state := (state r3)\<lparr>st_toolBlocks := (st_toolBlocks (state r3))(call_Index call \<mapsto> b3)\<rparr>\<rparr>)"

text \<open>The body of \<^verbatim>\<open>for _, choice := range chunk.Choices\<close>.\<close>

definition choice_delta :: "(nat \<Rightarrow> string) \<Rightarrow> reframer \<Rightarrow> StreamChoice \<Rightarrow> reframer" where
  "choice_delta now r choice =
     (let r1 = (case choice_FinishReason choice of
                  None \<Rightarrow> r
                | Some f \<Rightarrow> r\<lparr>lastFinishReason := Some f\<rparr>);
          r2 = (if Delta_Content choice \<noteq> '''' then text_delta (Delta_Content choice) r1 else r1)
      in foldl (\<lambda>r call. tool_call_delta now call r) r2 (Delta_ToolCalls choice))"

definition process_chunk :: "(nat \<Rightarrow> string) \<Rightarrow> string \<Rightarrow> OpenAIStreamResponse \<Rightarrow> reframer \<Rightarrow> reframer" where
  "process_chunk now fallbackModel chunk r =
     foldl (choice_delta now) (store_usage chunk (start_message now fallbackModel chunk r))
       (chunk_Choices chunk)"

subsection \<open>The read loop\<close>

text \<open>
  How the \<^verbatim>\<open>for\<close> loop ends: by \<^verbatim>\<open>break\<close> (on \<^verbatim>\<open>[DONE]\<close>, or after a chunk read together
  with \<^verbatim>\<open>io.EOF\<close>), which goes on to the closing events; by \<^verbatim>\<open>return io.EOF\<close>; or by
  returning a read error. The last two emit nothing more.
\<close>

datatype loop_exit = Break | ReturnEOF | ReturnErr

fun read_loop :: "(nat \<Rightarrow> string) \<Rightarrow> string \<Rightarrow> sse_read list \<Rightarrow> reframer \<Rightarrow> reframer \<times> loop_exit" where
  "read_loop now fallbackModel [] r = (r, ReturnEOF)"
| "read_loop now fallbackModel (ReadFailed # rest) r = (r, ReturnErr)"
| "read_loop now fallbackModel (Data NoData eof # rest) r =
     (if eof then (r, ReturnEOF) else read_loop now fallbackModel rest r)"
| "read_loop now fallbackModel (Data DoneMarker eof # rest) r = (r, Break)"
| "read_loop now fallbackModel (Data (Json None) eof # rest) r =
     read_loop now fallbackModel rest r"
| "read_loop now fallbackModel (Data (Json (Some chunk)) eof # rest) r =
     (let r' = process_chunk now fallbackModel chunk r
      in if eof then (r', Break) else read_loop now fallbackModel rest r')"

subsection \<open>Closing\<close>

text \<open>
  The body of \<^verbatim>\<open>for _, block := range state.toolBlocks\<close> for one block: the events it
  writes, and the block afterwards.
\<close>

definition close_tool_block :: "anthropicToolBlock \<Rightarrow> event list \<times> anthropicToolBlock" where
  "close_tool_block block =
     (let args = TrimSpace (tb_arguments block);
          delta = (if tb_started block \<and> args \<noteq> ''''
                   then [content_block_delta_input_json (tb_index block) args] else [])
      in if tb_started block \<and> \<not> tb_finished block
         then (delta @ [content_block_stop (tb_index block)], block\<lparr>tb_finished := True\<rparr>)
         else (delta, block))"

definition close_tool_block_at :: "reframer \<Rightarrow> int \<Rightarrow> reframer" where
  "close_tool_block_at r k =
     (case st_toolBlocks (state r) k of
        None \<Rightarrow> r
      | Some block \<Rightarrow>
          let (evs, block') = close_tool_block block
          in r\<lparr>state := (state r)\<lparr>st_toolBlocks := (st_toolBlocks (state r))(k \<mapsto> block')\<rparr>,
               written := written r @ evs\<rparr>)"

text \<open>
  The code after the loop. Go visits the keys of a map in an order it does not specify,
  each key once: \<open>order\<close> is that order, a list of the keys of \<^verbatim>\<open>state.toolBlocks\<close>.
\<close>

definition closing :: "int list \<Rightarrow> reframer \<Rightarrow> reframer" where
  "closing order r =
     (let r1 = (if st_textBlockStarted (state r)
                then writeAnthropicEvent (content_block_stop (st_textBlockIndex (state r))) r
                else r);
          r2 = foldl close_tool_block_at r1 order;
          r3 = (case lastFinishReason r2 of
                  None \<Rightarrow> r2
                | Some f \<Rightarrow>
                    writeAnthropicEvent
                      (message_delta (mapStopReason f (hasToolCalls r2))
                         (st_completionTokens (state r2))
                         (if st_promptTokens (state r2) > 0
                          then Some (st_promptTokens (state r2)) else None)) r2)
      in writeAnthropicEvent message_stop r3)"

datatype stream_return = ReturnedNil | ReturnedEOF | ReturnedError

definition streamOpenAIToAnthropic :: "(nat \<Rightarrow> string) \<Rightarrow> string \<Rightarrow> int list \<Rightarrow> sse_read list \<Rightarrow> event list \<times> stream_return" where
  "streamOpenAIToAnthropic now fallbackModel order reads =
     (case read_loop now fallbackModel reads initial_reframer of
        (r, Break) \<Rightarrow> (written (closing order r), ReturnedNil)
      | (r, ReturnEOF) \<Rightarrow> (written r, ReturnedEOF)
      | (r, ReturnErr) \<Rightarrow> (written r, ReturnedError))"

subsection \<open>What a run has seen\<close>

text \<open>
  The chunks a run of the loop decodes and processes, following the loop's own exits.
\<close>

fun processed_chunks :: "sse_read list \<Rightarrow> OpenAIStreamResponse list" where
  "processed_chunks [] = []"
| "processed_chunks (ReadFailed # rest) = []"
| "processed_chunks (Data NoData eof # rest) = (if eof then [] else processed_chunks rest)"
| "processed_chunks (Data DoneMarker eof # rest) = []"
| "processed_chunks (Data (Json None) eof # rest) = processed_chunks rest"
| "processed_chunks (Data (Json (Some chunk)) eof # rest) =
     chunk # (if eof then [] else processed_chunks rest)"

text \<open>
  Whether the loop ends by \<^verbatim>\<open>break\<close> on these reads, that is, whether the run goes on
  to the closing code: it does at \<^verbatim>\<open>[DONE]\<close> and after a chunk read together with
  \<^verbatim>\<open>io.EOF\<close>; it does not when a read fails or when a read returns no data with
  \<^verbatim>\<open>io.EOF\<close> (the function then returns at once).
\<close>

fun reaches_closing :: "sse_read list \<Rightarrow> bool" where
  "reaches_closing [] = False"
| "reaches_closing (ReadFailed # rest) = False"
| "reaches_closing (Data NoData eof # rest) = (if eof then False else reaches_closing rest)"
| "reaches_closing (Data DoneMarker eof # rest) = True"
| "reaches_closing (Data (Json None) eof # rest) = reaches_closing rest"
| "reaches_closing (Data (Json (Some chunk)) eof # rest) =
     (if eof then True else reaches_closing rest)"

text \<open>
  A content block of the outbound message is the text block or the tool block of one
  upstream tool-call position. The blocks a choice touches, in the order the loop body
  handles them: the text block when the delta carries non-empty text, then one tool
  block per tool-call fragment.
\<close>

datatype block_key = TextBlock | ToolBlock int

definition choice_keys :: "StreamChoice \<Rightarrow> block_key list" where
  "choice_keys choice =
     (if Delta_Content choice \<noteq> '''' then [TextBlock] else []) @
     map (\<lambda>call. ToolBlock (call_Index call)) (Delta_ToolCalls choice)"

definition chunk_keys :: "OpenAIStreamResponse \<Rightarrow> block_key list" where
  "chunk_keys chunk = concat (map choice_keys (chunk_Choices chunk))"

text \<open>The distinct blocks of a sequence, in the order of their first appearance.\<close>

definition add_key :: "block_key list \<Rightarrow> block_key \<Rightarrow> block_key list" where
  "add_key ks k = (if k \<in> set ks then ks else ks @ [k])"

definition first_appearances :: "block_key list \<Rightarrow> block_key list" where
  "first_appearances ks = foldl add_key [] ks"

definition seen_blocks :: "sse_read list \<Rightarrow> block_key list" where
  "seen_blocks reads = first_appearances (concat (map chunk_keys (processed_chunks reads)))"

text \<open>The index the state has assigned to a block, if any.\<close>

fun index_of_block :: "anthropicStreamState \<Rightarrow> block_key \<Rightarrow> int option" where
  "index_of_block st TextBlock =
     (if st_textBlockStarted st then Some (st_textBlockIndex st) else None)"
| "index_of_block st (ToolBlock p) = map_option tb_index (st_toolBlocks st p)"

text \<open>The indices of the \<^verbatim>\<open>content_block_start\<close> events of an event sequence, in order.\<close>

fun start_index :: "event \<Rightarrow> int option" where
  "start_index (content_block_start_text i) = Some i"
| "start_index (content_block_start_tool_use i _ _) = Some i"
| "start_index _ = None"

definition block_start_indices :: "event list \<Rightarrow> int list" where
  "block_start_indices evs = List.map_filter start_index evs"

text \<open>
  The argument fragments received for one upstream tool-call position, concatenated in
  the order of arrival.
\<close>

definition chunk_calls :: "OpenAIStreamResponse \<Rightarrow> ToolCallDelta list" where
  "chunk_calls chunk = concat (map Delta_ToolCalls (chunk_Choices chunk))"

definition fragments_at :: "int \<Rightarrow> ToolCallDelta list \<Rightarrow> string" where
  "fragments_at p calls =
     concat (map call_Function_Arguments (filter (\<lambda>call. call_Index call = p) calls))"

definition received_arguments :: "int \<Rightarrow> sse_read list \<Rightarrow> string" where
  "received_arguments p reads =
     fragments_at p (concat (map chunk_calls (processed_chunks reads)))"

fun is_input_json_delta_at :: "int \<Rightarrow> event \<Rightarrow> bool" where
  "is_input_json_delta_at i (content_block_delta_input_json j _) = (i = j)"
| "is_input_json_delta_at i _ = False"

subsection \<open>Invariants of a run, and sample inputs\<close>

text \<open>
  The block a first fragment leaves in the map: created, filled from the fragment and
  marked started.
\<close>

definition created_block :: "(nat \<Rightarrow> string) \<Rightarrow> ToolCallDelta \<Rightarrow> reframer \<Rightarrow> anthropicToolBlock" where
  "created_block now call r =
     (absorb_fragment call (fst (new_tool_block now call r)))\<lparr>tb_started := True\<rparr>"

text \<open>
  The invariant of the loop: \<open>ks\<close> lists the blocks seen so far in the order of their
  first appearance, the block at position \<open>i\<close> of \<open>ks\<close> has index \<open>i\<close>, no other
  block has an index, the counter is the number of blocks seen, the
  \<^verbatim>\<open>content_block_start\<close> events written so far carry the indices \<open>0, 1, ...\<close> in this
  order, and every tool block in the map is started and not finished.
\<close>

definition tracks :: "reframer \<Rightarrow> block_key list \<Rightarrow> bool" where
  "tracks r ks \<longleftrightarrow>
     distinct ks \<and>
     st_nextBlockIndex (state r) = int (length ks) \<and>
     (\<forall>i<length ks. index_of_block (state r) (ks ! i) = Some (int i)) \<and>
     (\<forall>k. k \<notin> set ks \<longrightarrow> index_of_block (state r) k = None) \<and>
     block_start_indices (written r) = map int [0..<length ks] \<and>
     (\<forall>p b. st_toolBlocks (state r) p = Some b \<longrightarrow> tb_started b \<and> \<not> tb_finished b)"

text \<open>The two chunks of the streaming scenario of the specification.\<close>

definition scenario_chunk1 :: OpenAIStreamResponse where
  "scenario_chunk1 =
     \<lparr>chunk_ID = ''x'', chunk_Object = '''', chunk_Created = 0, chunk_Model = ''m'',
      chunk_Usage = None,
      chunk_Choices = [\<lparr>choice_Index = 0, Delta_Role = '''', Delta_Content = ''Hi'',
                        Delta_ToolCalls = [], choice_FinishReason = None\<rparr>]\<rparr>"

definition scenario_chunk2 :: OpenAIStreamResponse where
  "scenario_chunk2 =
     \<lparr>chunk_ID = '''', chunk_Object = '''', chunk_Created = 0, chunk_Model = '''',
      chunk_Usage = None,
      chunk_Choices = [\<lparr>choice_Index = 0, Delta_Role = '''', Delta_Content = '' there'',
                        Delta_ToolCalls = [], choice_FinishReason = Some ''stop''\<rparr>]\<rparr>"

text \<open>
  A run with text and two interleaved tool calls at the upstream positions 7 and 3.
\<close>

definition tool_fragment :: "int \<Rightarrow> string \<Rightarrow> string \<Rightarrow> string \<Rightarrow> ToolCallDelta" where
  "tool_fragment p i n a =
     \<lparr>call_Index = p, call_ID = i, call_Type = ''function'', call_Function_Name = n,
      call_Function_Arguments = a\<rparr>"

definition chunk_of :: "string \<Rightarrow> ToolCallDelta list \<Rightarrow> OpenAIStreamResponse" where
  "chunk_of text calls =
     \<lparr>chunk_ID = ''x'', chunk_Object = '''', chunk_Created = 0, chunk_Model = ''m'',
      chunk_Usage = None,
      chunk_Choices = [\<lparr>choice_Index = 0, Delta_Role = '''', Delta_Content = text,
                        Delta_ToolCalls = calls, choice_FinishReason = None\<rparr>]\<rparr>"

definition interleaved_reads :: "sse_read list" where
  "interleaved_reads =
     [Data (Json (Some (chunk_of ''Hi'' [tool_fragment 7 ''a'' ''f'' ''{'']))) False,
      Data (Json (Some (chunk_of '''' [tool_fragment 3 ''b'' ''g'' ''{}'',
                                         tool_fragment 7 '''' '''' ''}'']))) False,
      Data DoneMarker False]"

text \<open>
  The second invariant of the loop, over the tool-call fragments processed so far: every
  tool block of the map is started, not finished, and buffers the concatenation of the
  fragments of its position; a position without a block has had no fragment; and no
  \<^verbatim>\<open>input_json_delta\<close> has been written.
\<close>

definition buffers :: "reframer \<Rightarrow> ToolCallDelta list \<Rightarrow> bool" where
  "buffers r calls \<longleftrightarrow>
     (\<forall>p. case st_toolBlocks (state r) p of
            None \<Rightarrow> p \<notin> call_Index ` set calls
          | Some b \<Rightarrow> tb_started b \<and> \<not> tb_finished b \<and> tb_arguments b = fragments_at p calls) \<and>
     (\<forall>e\<in>set (written r). \<forall>i. \<not> is_input_json_delta_at i e)"

text \<open>
  The events the closing loop writes for the key \<open>k\<close> of the map \<open>m\<close>, and the events
  after that loop (\<^verbatim>\<open>message_delta\<close> when a finish reason was seen, then
  \<^verbatim>\<open>message_stop\<close>).
\<close>

definition close_events :: "(int \<rightharpoonup> anthropicToolBlock) \<Rightarrow> int \<Rightarrow> event list" where
  "close_events m k = (case m k of None \<Rightarrow> [] | Some b \<Rightarrow> fst (close_tool_block b))"

definition final_events :: "reframer \<Rightarrow> event list" where
  "final_events r =
     (case lastFinishReason r of
        None \<Rightarrow> []
      | Some f \<Rightarrow>
          [message_delta (mapStopReason f (hasToolCalls r)) (st_completionTokens (state r))
             (if st_promptTokens (state r) > 0 then Some (st_promptTokens (state r)) else None)]) @
     [message_stop]"

text \<open>
  Two runs with one tool call each: its only argument fragment is \<^verbatim>\<open> {}\<close> with a
  leading space, or two spaces.
\<close>

definition padded_reads :: "sse_read list" where
  "padded_reads =
     [Data (Json (Some (chunk_of '''' [tool_fragment 0 ''c'' ''f'' '' {}'']))) False,
      Data DoneMarker False]"

definition blank_reads :: "sse_read list" where
  "blank_reads =
     [Data (Json (Some (chunk_of '''' [tool_fragment 0 ''c'' ''f'' ''  '']))) False,
      Data DoneMarker False]"

text \<open>
  A run with one tool call whose argument fragment is \<^verbatim>\<open>{}\<close>, and whose input ends after
  the blank line that follows the chunk, without \<^verbatim>\<open>[DONE]\<close>.
\<close>

definition unterminated_reads :: "sse_read list" where
  "unterminated_reads =
     [Data (Json (Some (chunk_of '''' [tool_fragment 0 ''c'' ''f'' ''{}'']))) False,
      Data NoData True]"

text \<open>The state in which the loop leaves the first of these runs, and its tool block.\<close>

definition padded_block :: anthropicToolBlock where
  "padded_block =
     \<lparr>tb_index = 0, tb_id = ''c'', tb_name = ''f'', tb_arguments = '' {}'',
      tb_started = True, tb_finished = False, tb_openAIIndex = 0\<rparr>"

definition padded_final :: reframer where
  "padded_final =
     \<lparr>state = \<lparr>st_messageID = ''x'', st_model = ''m'', st_started = True,
               st_textBlockIndex = - 1, st_nextBlockIndex = 1, st_textBlockStarted = False,
               st_toolBlocks = [0 \<mapsto> padded_block], st_promptTokens = 0,
               st_completionTokens = 0\<rparr>,
      lastFinishReason = None, hasToolCalls = True,
      written = [message_start ''x'' ''m'', content_block_start_tool_use 0 ''c'' ''f''],
      clock_reads = 0\<rparr>"

section \<open>The translators\<close>

subsection \<open>Dynamically typed values\<close>

text \<open>
  A Go \<^verbatim>\<open>interface{}\<close> that holds decoded JSON: \<^verbatim>\<open>nil\<close>, a \<^verbatim>\<open>bool\<close>, a number (its
  text; the translators never compute with one), a \<^verbatim>\<open>string\<close>, a \<^verbatim>\<open>[]interface{}\<close> or a
  \<^verbatim>\<open>map[string]interface{}\<close> (its entries; a key is looked up with \<open>map_of\<close>).
  \<^verbatim>\<open>json.Marshal\<close> and \<^verbatim>\<open>json.Unmarshal\<close> belong to Go's library, not to this
  repository: the functions below take them as the parameters \<open>marshal\<close> (the encoded
  text, or \<open>None\<close> on an error) and \<open>unmarshal\<close> (the decoded value, or \<open>None\<close> on an
  error).
\<close>

datatype json =
    JNull
  | JBool bool
  | JNumber string
  | JString string
  | JArray "json list"
  | JObject "(string \<times> json) list"

text \<open>\<^verbatim>\<open>m[key]\<close>: the value, or \<^verbatim>\<open>nil\<close> for a missing key.\<close>

definition index_map :: "(string \<times> json) list \<Rightarrow> string \<Rightarrow> json" where
  "index_map m key = (case map_of m key of None \<Rightarrow> JNull | Some v \<Rightarrow> v)"

text \<open>The type assertion \<^verbatim>\<open>v.(string)\<close> with its \<^verbatim>\<open>ok\<close>.\<close>

definition as_string :: "json \<Rightarrow> string \<times> bool" where
  "as_string v = (case v of JString s \<Rightarrow> (s, True) | _ \<Rightarrow> ('''', False))"

fun Join :: "string list \<Rightarrow> string \<Rightarrow> string" where
  "Join [] sep = ''''"
| "Join [x] sep = x"
| "Join (x # y # ys) sep = x @ sep @ Join (y # ys) sep"

definition newline :: string where
  "newline = [CHR 0x0A]"

subsection \<open>Structs of the two protocols\<close>

record AnthropicMessage =
  msg_Role :: string
  msg_Content :: json

record AnthropicToolDefinition =
  tool_Name :: string
  tool_Description :: string
  tool_InputSchema :: json
  tool_Type :: string

text \<open>
  \<^verbatim>\<open>Temperature\<close> and \<^verbatim>\<open>TopP\<close> are \<^verbatim>\<open>*float64\<close>, \<^verbatim>\<open>TopK\<close> is \<^verbatim>\<open>*int\<close>: \<open>None\<close> is the
  \<^verbatim>\<open>nil\<close> pointer. The floating-point values are only copied, so their type is a
  parameter.
\<close>

record 'f AnthropicRequest =
  req_Model :: string
  req_Messages :: "AnthropicMessage list"
  req_System :: json
  req_MaxTokens :: int
  req_Temperature :: "'f option"
  req_TopP :: "'f option"
  req_TopK :: "int option"
  req_Stream :: bool
  req_Tools :: "AnthropicToolDefinition list"
  req_ToolChoice :: json
  req_StopSequences :: "string list"

record OpenAIFunctionCall =
  fc_Name :: string
  fc_Arguments :: string

record OpenAIToolCall =
  otc_ID :: string
  otc_Type :: string
  otc_Function :: OpenAIFunctionCall

record OpenAIMessage =
  om_Role :: string
  om_Content :: json
  om_ToolCalls :: "OpenAIToolCall list"
  om_FunctionCall :: "OpenAIFunctionCall option"

record OpenAIChoice =
  ch_Index :: int
  ch_Message :: "OpenAIMessage option"
  ch_FinishReason :: string

record OpenAIResponse =
  resp_ID :: string
  resp_Object :: string
  resp_Created :: int
  resp_Model :: string
  resp_Choices :: "OpenAIChoice list"
  resp_Usage :: OpenAIUsage

record AnthropicContentBlock =
  cb_Type :: string
  cb_Text :: string
  cb_ID :: string
  cb_Name :: string
  cb_Input :: json

record AnthropicResponse =
  ar_ID :: string
  ar_Type :: string
  ar_Role :: string
  ar_Model :: string
  ar_Content :: "AnthropicContentBlock list"
  ar_StopReason :: string
  ar_StopSequence :: string
  ar_Usage_InputTokens :: int
  ar_Usage_OutputTokens :: int

text \<open>
  The flat messages, tool calls and tools the request translator builds are Go maps with
  fixed keys; a key the code sets only under a condition is an \<open>option\<close>. A tool call
  is \<^verbatim>\<open>{id, type, function: {name, arguments}}\<close>, a flat message
  \<^verbatim>\<open>{role, content, tool_calls?, tool_call_id?}\<close>, a tool
  \<^verbatim>\<open>{type: "function", function: {name, description?, parameters?}}\<close>.
\<close>

record flat_tool_call =
  tc_id :: string
  tc_type :: string
  tc_function_name :: string
  tc_function_arguments :: string

record flat_message =
  fm_role :: string
  fm_content :: string
  fm_tool_calls :: "flat_tool_call list option"
  fm_tool_call_id :: "string option"

record flat_tool =
  ft_type :: string
  ft_function_name :: string
  ft_function_description :: "string option"
  ft_function_parameters :: "json option"

record 'f openAIReq =
  oa_model :: string
  oa_messages :: "flat_message list"
  oa_stream :: bool
  oa_stream_options_include_usage :: "bool option"
  oa_max_tokens :: "int option"
  oa_temperature :: "'f option"
  oa_top_p :: "'f option"
  oa_top_k :: "int option"
  oa_stop :: "string list option"
  oa_tools :: "flat_tool list option"
  oa_tool_choice :: "json option"

subsection \<open>The converter\<close>

text \<open>
  The functions of \<^verbatim>\<open>internal/domain/service/converter.go\<close>. The monolithic \<^verbatim>\<open>main\<close>
  package holds a copy of each under the same name with a lower-case initial, the same
  statement for statement. A function that may call \<^verbatim>\<open>GenerateToolCallID\<close> takes the
  number of clock readings so far and returns the new number.
\<close>

definition GenerateToolCallID :: "(nat \<Rightarrow> string) \<Rightarrow> nat \<Rightarrow> string" where
  "GenerateToolCallID now k = ''call_'' @ now k"

definition StringifyToolResult :: "(json \<Rightarrow> string option) \<Rightarrow> json \<Rightarrow> string" where
  "StringifyToolResult marshal content =
     (case content of
        JNull \<Rightarrow> ''''
      | JString text \<Rightarrow> text
      | _ \<Rightarrow> (case marshal content of None \<Rightarrow> '''' | Some payload \<Rightarrow> payload))"

record parsed_content =
  textParts :: "string list"
  toolCalls :: "flat_tool_call list"
  toolResults :: "flat_message list"

definition append_text :: "string \<Rightarrow> parsed_content \<Rightarrow> parsed_content" where
  "append_text text ps =
     (if TrimSpace text \<noteq> '''' then ps\<lparr>textParts := textParts ps @ [text]\<rparr> else ps)"

definition parseAnthropicBlock :: "(json \<Rightarrow> string option) \<Rightarrow> (nat \<Rightarrow> string) \<Rightarrow> (string \<times> json) list \<Rightarrow> parsed_content \<times> nat \<Rightarrow> parsed_content \<times> nat" where
  "parseAnthropicBlock marshal now block acc =
     (let (ps, k) = acc;
          typeVal = fst (as_string (index_map block ''type''))
      in if typeVal = ''text''
         then (append_text (fst (as_string (index_map block ''text''))) ps, k)
         else if typeVal = ''tool_use''
         then
           let name = fst (as_string (index_map block ''name''));
               id0 = fst (as_string (index_map block ''id''));
               (id1, k1) = (if TrimSpace id0 = '''' then (GenerateToolCallID now k, Suc k)
                            else (id0, k));
               input = index_map block ''input'';
               argsBytes = (if input \<noteq> JNull
                            then (case marshal input of Some b \<Rightarrow> b | None \<Rightarrow> ''{}'')
                            else ''{}'')
           in (ps\<lparr>toolCalls := toolCalls ps @
                   [\<lparr>tc_id = id1, tc_type = ''function'', tc_function_name = name,
                     tc_function_arguments = argsBytes\<rparr>]\<rparr>, k1)
         else if typeVal = ''tool_result''
         then
           let toolUseID = fst (as_string (index_map block ''tool_use_id''))
           in (ps\<lparr>toolResults := toolResults ps @
                   [\<lparr>fm_role = ''tool'',
                     fm_content = StringifyToolResult marshal (index_map block ''content''),
                     fm_tool_calls = None, fm_tool_call_id = Some toolUseID\<rparr>]\<rparr>, k)
         else (append_text (fst (as_string (index_map block ''text''))) ps, k))"

definition text_of_block :: "(string \<times> json) list \<Rightarrow> string list" where
  "text_of_block block =
     (let (text, ok) = as_string (index_map block ''text'')
      in if fst (as_string (index_map block ''type'')) = ''text''
         then (if ok \<and> TrimSpace text \<noteq> '''' then [text] else [])
         else (if ok \<and> TrimSpace text \<noteq> '''' then [text] else []))"

definition ExtractTextParts :: "json \<Rightarrow> string list" where
  "ExtractTextParts v =
     (case v of
        JNull \<Rightarrow> []
      | JString t \<Rightarrow> (if TrimSpace t = '''' then [] else [t])
      | JArray items \<Rightarrow>
          concat (map (\<lambda>item. case item of
                          JString text \<Rightarrow> (if TrimSpace text \<noteq> '''' then [text] else [])
                        | JObject block \<Rightarrow> text_of_block block
                        | _ \<Rightarrow> []) items)
      | JObject t \<Rightarrow> text_of_block t
      | _ \<Rightarrow> [])"

definition FlattenAnthropicText :: "json \<Rightarrow> string" where
  "FlattenAnthropicText v = Join (ExtractTextParts v) newline"

definition no_content :: parsed_content where
  "no_content = \<lparr>textParts = [], toolCalls = [], toolResults = []\<rparr>"

definition ParseAnthropicContent :: "(json \<Rightarrow> string option) \<Rightarrow> (nat \<Rightarrow> string) \<Rightarrow> json \<Rightarrow> nat \<Rightarrow> parsed_content \<times> nat" where
  "ParseAnthropicContent marshal now content k =
     (case content of
        JString v \<Rightarrow> (append_text v no_content, k)
      | JArray items \<Rightarrow>
          foldl (\<lambda>acc item. case item of
                    JObject block \<Rightarrow> parseAnthropicBlock marshal now block acc
                  | _ \<Rightarrow> acc) (no_content, k) items
      | JObject v \<Rightarrow> parseAnthropicBlock marshal now v (no_content, k)
      | JNull \<Rightarrow> (no_content, k)
      | _ \<Rightarrow> (append_text (FlattenAnthropicText content) no_content, k))"

definition ConvertAnthropicMessage :: "(json \<Rightarrow> string option) \<Rightarrow> (nat \<Rightarrow> string) \<Rightarrow> AnthropicMessage \<Rightarrow> nat \<Rightarrow> flat_message list \<times> nat" where
  "ConvertAnthropicMessage marshal now msg k =
     (let (ps, k') = ParseAnthropicContent marshal now (msg_Content msg) k;
          messages =
            (if textParts ps \<noteq> [] \<or> toolCalls ps \<noteq> []
             then [\<lparr>fm_role = msg_Role msg, fm_content = Join (textParts ps) newline,
                     fm_tool_calls = (if toolCalls ps \<noteq> [] then Some (toolCalls ps) else None),
                     fm_tool_call_id = None\<rparr>]
             else if toolResults ps = []
             then [\<lparr>fm_role = msg_Role msg, fm_content = '''', fm_tool_calls = None,
                     fm_tool_call_id = None\<rparr>]
             else [])
      in (if toolResults ps \<noteq> [] then messages @ toolResults ps else messages, k'))"

definition ConvertAnthropicToOpenAIMessages :: "(json \<Rightarrow> string option) \<Rightarrow> (nat \<Rightarrow> string) \<Rightarrow> json \<Rightarrow> AnthropicMessage list \<Rightarrow> nat \<Rightarrow> flat_message list \<times> nat" where
  "ConvertAnthropicToOpenAIMessages marshal now system messages k =
     (let sysText = FlattenAnthropicText system;
          openAIMessages =
            (if TrimSpace sysText \<noteq> ''''
             then [\<lparr>fm_role = ''system'', fm_content = sysText, fm_tool_calls = None,
                     fm_tool_call_id = None\<rparr>]
             else [])
      in foldl (\<lambda>(out, k) msg.
                  let (converted, k') = ConvertAnthropicMessage marshal now msg k
                  in (out @ converted, k'))
           (openAIMessages, k) messages)"

definition ConvertAnthropicTools :: "AnthropicToolDefinition list \<Rightarrow> flat_tool list" where
  "ConvertAnthropicTools tools =
     concat (map (\<lambda>tool.
        let name = TrimSpace (tool_Name tool)
        in if name = '''' then []
           else [\<lparr>ft_type = ''function'', ft_function_name = name,
                   ft_function_description =
                     (if TrimSpace (tool_Description tool) \<noteq> ''''
                      then Some (tool_Description tool) else None),
                   ft_function_parameters =
                     (if tool_InputSchema tool \<noteq> JNull
                      then Some (tool_InputSchema tool) else None)\<rparr>]) tools)"

definition ConvertAnthropicToolChoice :: "json \<Rightarrow> json" where
  "ConvertAnthropicToolChoice choice =
     (case choice of
        JString v \<Rightarrow>
          (if v = ''any'' then JString ''required''
           else if v = ''auto'' then JString ''auto''
           else JString v)
      | JObject v \<Rightarrow>
          (let (name, ok) = as_string (index_map v ''name'')
           in if index_map v ''type'' = JString ''tool'' \<and> ok \<and> TrimSpace name \<noteq> ''''
              then JObject [(''type'', JString ''function''),
                            (''function'', JObject [(''name'', JString name)])]
              else JObject v)
      | _ \<Rightarrow> choice)"

definition OpenAIContentToString :: "json \<Rightarrow> string" where
  "OpenAIContentToString content =
     (case content of
        JNull \<Rightarrow> ''''
      | JString v \<Rightarrow> v
      | JArray items \<Rightarrow>
          Join (concat (map (\<lambda>item. case item of
                    JObject block \<Rightarrow>
                      (let (text, ok) = as_string (index_map block ''text'')
                       in if fst (as_string (index_map block ''type'')) = ''text'' \<and> ok \<and>
                             TrimSpace text \<noteq> ''''
                          then [text] else [])
                  | _ \<Rightarrow> []) items)) newline
      | _ \<Rightarrow> '''')"

definition ParseToolCallArgs :: "(string \<Rightarrow> json option) \<Rightarrow> string \<Rightarrow> json" where
  "ParseToolCallArgs unmarshal args =
     (if TrimSpace args = '''' then JObject []
      else case unmarshal args of
             None \<Rightarrow> JObject [(''arguments'', JString args)]
           | Some payload \<Rightarrow> payload)"

definition tool_use_of_call :: "(string \<Rightarrow> json option) \<Rightarrow> (nat \<Rightarrow> string) \<Rightarrow> AnthropicContentBlock list \<times> nat \<Rightarrow> OpenAIToolCall \<Rightarrow> AnthropicContentBlock list \<times> nat" where
  "tool_use_of_call unmarshal now acc call =
     (let (blocks, k) = acc;
          name = TrimSpace (fc_Name (otc_Function call))
      in if name = '''' \<and> TrimSpace (fc_Arguments (otc_Function call)) = '''' then (blocks, k)
         else
           let id0 = TrimSpace (otc_ID call);
               (id1, k1) = (if id0 = '''' then (GenerateToolCallID now k, Suc k) else (id0, k))
           in (blocks @ [\<lparr>cb_Type = ''tool_use'', cb_Text = '''', cb_ID = id1, cb_Name = name,
                           cb_Input = ParseToolCallArgs unmarshal
                                        (fc_Arguments (otc_Function call))\<rparr>], k1))"

definition BuildAnthropicContentBlocks :: "(string \<Rightarrow> json option) \<Rightarrow> (nat \<Rightarrow> string) \<Rightarrow> OpenAIMessage option \<Rightarrow> nat \<Rightarrow> AnthropicContentBlock list \<times> nat" where
  "BuildAnthropicContentBlocks unmarshal now message k =
     (case message of
        None \<Rightarrow> ([\<lparr>cb_Type = ''text'', cb_Text = '''', cb_ID = '''', cb_Name = '''',
                    cb_Input = JNull\<rparr>], k)
      | Some m \<Rightarrow>
          let text = OpenAIContentToString (om_Content m);
              blocks0 = (if TrimSpace text \<noteq> ''''
                         then [\<lparr>cb_Type = ''text'', cb_Text = text, cb_ID = '''', cb_Name = '''',
                                 cb_Input = JNull\<rparr>]
                         else []);
              (blocks1, k1) = foldl (tool_use_of_call unmarshal now) (blocks0, k) (om_ToolCalls m);
              (blocks2, k2) =
                (case om_FunctionCall m of
                   None \<Rightarrow> (blocks1, k1)
                 | Some fc \<Rightarrow>
                     let name = TrimSpace (fc_Name fc)
                     in if name \<noteq> '''' \<or> TrimSpace (fc_Arguments fc) \<noteq> ''''
                        then (blocks1 @ [\<lparr>cb_Type = ''tool_use'', cb_Text = '''',
                                           cb_ID = GenerateToolCallID now k1, cb_Name = name,
                                           cb_Input = ParseToolCallArgs unmarshal
                                                        (fc_Arguments fc)\<rparr>], Suc k1)
                        else (blocks1, k1))
          in (if blocks2 = []
              then [\<lparr>cb_Type = ''text'', cb_Text = '''', cb_ID = '''', cb_Name = '''',
                      cb_Input = JNull\<rparr>]
              else blocks2, k2))"

subsection \<open>Building the flat request\<close>

text \<open>
  The request map \<^verbatim>\<open>openAIReq\<close> of the monolithic \<^verbatim>\<open>handleAnthropic\<close> and
  \<^verbatim>\<open>handleAnthropicStream\<close>. The two build the same map but for \<^verbatim>\<open>stream\<close> and
  \<^verbatim>\<open>stream_options\<close>, and \<^verbatim>\<open>req.Stream\<close> decides which of them runs. The default
  model comes from the environment: the parameter \<open>defaultModel\<close>.
\<close>

definition handleAnthropic_request :: "string \<Rightarrow> (json \<Rightarrow> string option) \<Rightarrow> (nat \<Rightarrow> string) \<Rightarrow> 'f AnthropicRequest \<Rightarrow> 'f openAIReq" where
  "handleAnthropic_request defaultModel marshal now req =
     \<lparr>oa_model = (if req_Model req = '''' then defaultModel else req_Model req),
      oa_messages =
        fst (ConvertAnthropicToOpenAIMessages marshal now (req_System req) (req_Messages req) 0),
      oa_stream = req_Stream req,
      oa_stream_options_include_usage = (if req_Stream req then Some True else None),
      oa_max_tokens = (if req_MaxTokens req > 0 then Some (req_MaxTokens req) else None),
      oa_temperature = (case req_Temperature req of None \<Rightarrow> None | Some t \<Rightarrow> Some t),
      oa_top_p = (case req_TopP req of None \<Rightarrow> None | Some t \<Rightarrow> Some t),
      oa_top_k = (case req_TopK req of None \<Rightarrow> None | Some t \<Rightarrow> Some t),
      oa_stop = (if req_StopSequences req \<noteq> [] then Some (req_StopSequences req) else None),
      oa_tools = (let tools = ConvertAnthropicTools (req_Tools req)
                  in if tools \<noteq> [] then Some tools else None),
      oa_tool_choice = (if req_ToolChoice req \<noteq> JNull
                        then Some (ConvertAnthropicToolChoice (req_ToolChoice req)) else None)\<rparr>"

text \<open>
  The request map of the Gin-based \<^verbatim>\<open>HandleAnthropic\<close> and \<^verbatim>\<open>handleAnthropicStream\<close>
  (\<^verbatim>\<open>ProxyUseCase\<close>), which again differ only in \<^verbatim>\<open>stream\<close> and \<^verbatim>\<open>stream_options\<close>.
  Neither reads \<^verbatim>\<open>req.TopK\<close>: the map never gets a \<^verbatim>\<open>top_k\<close> entry.
\<close>

definition HandleAnthropic_request :: "string \<Rightarrow> (json \<Rightarrow> string option) \<Rightarrow> (nat \<Rightarrow> string) \<Rightarrow> 'f AnthropicRequest \<Rightarrow> 'f openAIReq" where
  "HandleAnthropic_request defaultModel marshal now req =
     \<lparr>oa_model = (if req_Model req = '''' then defaultModel else req_Model req),
      oa_messages =
        fst (ConvertAnthropicToOpenAIMessages marshal now (req_System req) (req_Messages req) 0),
      oa_stream = req_Stream req,
      oa_stream_options_include_usage = (if req_Stream req then Some True else None),
      oa_max_tokens = (if req_MaxTokens req > 0 then Some (req_MaxTokens req) else None),
      oa_temperature = (case req_Temperature req of None \<Rightarrow> None | Some t \<Rightarrow> Some t),
      oa_top_p = (case req_TopP req of None \<Rightarrow> None | Some t \<Rightarrow> Some t),
      oa_top_k = None,
      oa_stop = (if req_StopSequences req \<noteq> [] then Some (req_StopSequences req) else None),
      oa_tools = (let tools = ConvertAnthropicTools (req_Tools req)
                  in if tools \<noteq> [] then Some tools else None),
      oa_tool_choice = (if req_ToolChoice req \<noteq> JNull
                        then Some (ConvertAnthropicToolChoice (req_ToolChoice req)) else None)\<rparr>"

subsection \<open>Answering a non-streaming request\<close>

text \<open>
  What the upstream gateway hands back: an error of the transport, or a status code with
  a body. What the handler then does: it answers 502 with a message, relays the
  upstream's status and body, or answers 200 with a typed-block response.
  \<^verbatim>\<open>HandleAnthropic\<close> (Gin) and \<^verbatim>\<open>handleAnthropic\<close> (monolithic) take the same decisions
  in the same order; \<open>decode\<close> is \<^verbatim>\<open>json.Unmarshal\<close> into an \<^verbatim>\<open>OpenAIResponse\<close>, and
  \<open>reqModel\<close> is \<^verbatim>\<open>req.Model\<close> after the default. They differ in how they relay an
  answer that is not 2xx: the monolithic handler writes the upstream's status and body
  (\<open>Relayed\<close>); the Gin-based one calls \<^verbatim>\<open>c.Status(statusCode)\<close> and then
  \<^verbatim>\<open>c.Data(http.StatusOK, "application/json", respBody)\<close>, and \<open>StatusThenData\<close> records
  the two status codes of these calls, in this order, and the body.
\<close>

datatype upstream = TransportError string | Upstream int string

datatype reply =
    BadGateway string
  | Relayed int string
  | StatusThenData int int string
  | Translated AnthropicResponse

definition HandleAnthropic_reply :: "(string \<Rightarrow> OpenAIResponse option) \<Rightarrow> (string \<Rightarrow> json option) \<Rightarrow> (nat \<Rightarrow> string) \<Rightarrow> string \<Rightarrow> upstream \<Rightarrow> reply" where
  "HandleAnthropic_reply decode unmarshal now reqModel up =
     (case up of
        TransportError e \<Rightarrow> BadGateway e
      | Upstream statusCode respBody \<Rightarrow>
          if statusCode < 200 \<or> statusCode > 299 then StatusThenData statusCode 200 respBody
          else
            case decode respBody of
              None \<Rightarrow> BadGateway ''invalid upstream response''
            | Some openAIResp \<Rightarrow>
                (case resp_Choices openAIResp of
                   [] \<Rightarrow> BadGateway ''no choices in response''
                 | choice # _ \<Rightarrow>
                     (case ch_Message choice of
                        None \<Rightarrow> BadGateway ''no choices in response''
                      | Some message \<Rightarrow>
                          Translated
                            \<lparr>ar_ID = resp_ID openAIResp,
                             ar_Type = ''message'',
                             ar_Role = ''assistant'',
                             ar_Model = (if resp_Model openAIResp = '''' then reqModel
                                         else resp_Model openAIResp),
                             ar_Content =
                               fst (BuildAnthropicContentBlocks unmarshal now (Some message) 0),
                             ar_StopReason =
                               MapStopReason (ch_FinishReason choice)
                                 (om_ToolCalls message \<noteq> [] \<or> om_FunctionCall message \<noteq> None),
                             ar_StopSequence = '''',
                             ar_Usage_InputTokens = PromptTokens (resp_Usage openAIResp),
                             ar_Usage_OutputTokens = CompletionTokens (resp_Usage openAIResp)\<rparr>)))"

text \<open>The monolithic \<^verbatim>\<open>handleAnthropic\<close>, after the upstream call.\<close>

definition handleAnthropic_reply :: "(string \<Rightarrow> OpenAIResponse option) \<Rightarrow> (string \<Rightarrow> json option) \<Rightarrow> (nat \<Rightarrow> string) \<Rightarrow> string \<Rightarrow> upstream \<Rightarrow> reply" where
  "handleAnthropic_reply decode unmarshal now reqModel up =
     (case up of
        TransportError e \<Rightarrow> BadGateway e
      | Upstream statusCode respBody \<Rightarrow>
          if statusCode < 200 \<or> statusCode > 299 then Relayed statusCode respBody
          else
            case decode respBody of
              None \<Rightarrow> BadGateway ''invalid upstream response''
            | Some openAIResp \<Rightarrow>
                (case resp_Choices openAIResp of
                   [] \<Rightarrow> BadGateway ''no choices in response''
                 | choice # _ \<Rightarrow>
                     (case ch_Message choice of
                        None \<Rightarrow> BadGateway ''no choices in response''
                      | Some message \<Rightarrow>
                          Translated
                            \<lparr>ar_ID = resp_ID openAIResp,
                             ar_Type = ''message'',
                             ar_Role = ''assistant'',
                             ar_Model = (if resp_Model openAIResp = '''' then reqModel
                                         else resp_Model openAIResp),
                             ar_Content =
                               fst (BuildAnthropicContentBlocks unmarshal now (Some message) 0),
                             ar_StopReason =
                               mapStopReason (ch_FinishReason choice)
                                 (om_ToolCalls message \<noteq> [] \<or> om_FunctionCall message \<noteq> None),
                             ar_StopSequence = '''',
                             ar_Usage_InputTokens = PromptTokens (resp_Usage openAIResp),
                             ar_Usage_OutputTokens = CompletionTokens (resp_Usage openAIResp)\<rparr>)))"

subsection \<open>Answering a streaming request\<close>

text \<open>
  What a streaming handler writes as the body of its answer: bytes copied from the
  upstream body by \<^verbatim>\<open>io.Copy\<close>, or typed-block events written by
  \<^verbatim>\<open>writeAnthropicEvent\<close>.
\<close>

datatype stream_body = Copied string | Events "event list"

datatype stream_reply = StreamBadGateway string | Streamed int stream_body

text \<open>
  The Gin-based \<^verbatim>\<open>handleAnthropicStream\<close>, after the upstream call: both branches end in
  \<^verbatim>\<open>io.Copy(c.Writer, resp.Body)\<close>.
\<close>

definition gin_handleAnthropicStream_reply :: "upstream \<Rightarrow> stream_reply" where
  "gin_handleAnthropicStream_reply up =
     (case up of
        TransportError e \<Rightarrow> StreamBadGateway e
      | Upstream statusCode body \<Rightarrow>
          if statusCode < 200 \<or> statusCode > 299 then Streamed statusCode (Copied body)
          else Streamed 200 (Copied body))"

text \<open>
  The monolithic \<^verbatim>\<open>handleAnthropicStream\<close>, after the upstream call, on a response writer
  that can flush: a 2xx body goes through \<^verbatim>\<open>streamOpenAIToAnthropic\<close>. \<open>readSSE\<close> gives
  the results of the calls of \<^verbatim>\<open>readSSEData\<close> and \<^verbatim>\<open>json.Unmarshal\<close> on the body.
\<close>

definition handleAnthropicStream_reply :: "(string \<Rightarrow> sse_read list) \<Rightarrow> (nat \<Rightarrow> string) \<Rightarrow> int list \<Rightarrow> string \<Rightarrow> upstream \<Rightarrow> stream_reply" where
  "handleAnthropicStream_reply readSSE now order reqModel up =
     (case up of
        TransportError e \<Rightarrow> StreamBadGateway e
      | Upstream statusCode body \<Rightarrow>
          if statusCode < 200 \<or> statusCode > 299 then Streamed statusCode (Copied body)
          else Streamed 200 (Events (fst (streamOpenAIToAnthropic now reqModel order (readSSE body)))))"

subsection \<open>Values the properties are stated with\<close>

text \<open>
  The flat message the \<^verbatim>\<open>tool_result\<close> case of \<^verbatim>\<open>parseAnthropicBlock\<close> appends for a
  block.
\<close>

definition tool_result_message :: "(json \<Rightarrow> string option) \<Rightarrow> (string \<times> json) list \<Rightarrow> flat_message" where
  "tool_result_message marshal block =
     \<lparr>fm_role = ''tool'',
      fm_content = StringifyToolResult marshal (index_map block ''content''),
      fm_tool_calls = None,
      fm_tool_call_id = Some (fst (as_string (index_map block ''tool_use_id'')))\<rparr>"





text \<open>A flat response without choices, and one whose first choice has a message.\<close>

definition empty_response :: OpenAIResponse where
  "empty_response =
     \<lparr>resp_ID = ''r'', resp_Object = '''', resp_Created = 0, resp_Model = ''m'',
      resp_Choices = [],
      resp_Usage = \<lparr>PromptTokens = 0, CompletionTokens = 0, TotalTokens = 0\<rparr>\<rparr>"

definition hello_response :: OpenAIResponse where
  "hello_response =
     \<lparr>resp_ID = ''r'', resp_Object = '''', resp_Created = 0, resp_Model = ''m'',
      resp_Choices =
        [\<lparr>ch_Index = 0,
          ch_Message = Some \<lparr>om_Role = ''assistant'', om_Content = JString ''hello'',
                             om_ToolCalls = [], om_FunctionCall = None\<rparr>,
          ch_FinishReason = ''stop''\<rparr>],
      resp_Usage = \<lparr>PromptTokens = 3, CompletionTokens = 1, TotalTokens = 4\<rparr>\<rparr>"

section \<open>Properties of the stop-reason mapping\<close>

text \<open>
  C1, as stated, fails: the finish reason \<^verbatim>\<open>length\<close> is not literally \<^verbatim>\<open>stop\<close>, yet
  with a tool call emitted it still maps to \<^verbatim>\<open>max_tokens\<close>, not to \<^verbatim>\<open>tool_use\<close>,
  because the \<^verbatim>\<open>length\<close> case of the switch is tried first.
\<close>

theorem C1_length_with_tool_calls_counterexample:
  "mapStopReason ''length'' True \<noteq> ''tool_use'' \<and> MapStopReason ''length'' True \<noteq> ''tool_use''"
  by (simp add: mapStopReason_def MapStopReason_def)

text \<open>
  C1, amended: \<^verbatim>\<open>length\<close> maps to \<^verbatim>\<open>max_tokens\<close> whatever \<^verbatim>\<open>hasToolCalls\<close> is, and
  whenever \<^verbatim>\<open>hasToolCalls\<close> is true and the finish reason is neither \<^verbatim>\<open>stop\<close> nor
  \<^verbatim>\<open>length\<close>, the result is \<^verbatim>\<open>tool_use\<close>; in both implementations.
\<close>

theorem C1_stop_reason_length_and_tool_use:
  "mapStopReason ''length'' h = ''max_tokens'' \<and> MapStopReason ''length'' h = ''max_tokens'' \<and>
   (h \<and> f \<noteq> ''stop'' \<and> f \<noteq> ''length'' \<longrightarrow>
      mapStopReason f h = ''tool_use'' \<and> MapStopReason f h = ''tool_use'')"
  by (simp add: mapStopReason_def MapStopReason_def)

text \<open>C1, amended, at the finish reason \<^verbatim>\<open>content_filter\<close> with a tool call emitted.\<close>

theorem C1_stop_reason_witness:
  "mapStopReason ''length'' True = ''max_tokens'' \<and> MapStopReason ''length'' True = ''max_tokens'' \<and>
   mapStopReason ''content_filter'' True = ''tool_use'' \<and>
   MapStopReason ''content_filter'' True = ''tool_use''"
  using C1_stop_reason_length_and_tool_use [of True "''content_filter''"] by simp

text \<open>
  C10: for every finish reason and every value of \<^verbatim>\<open>hasToolCalls\<close> the mapping returns
  one of the three strings \<^verbatim>\<open>max_tokens\<close>, \<^verbatim>\<open>end_turn\<close>, \<^verbatim>\<open>tool_use\<close>; no input
  produces any other classification.
\<close>

theorem C10_stop_reason_three_values:
  "mapStopReason f h \<in> {''max_tokens'', ''end_turn'', ''tool_use''} \<and>
   MapStopReason f h \<in> {''max_tokens'', ''end_turn'', ''tool_use''}"
  by (simp add: mapStopReason_def MapStopReason_def)

section \<open>Properties of the stream reframer\<close>

subsection \<open>The steps, case by case\<close>

lemma text_delta_started:
  "st_textBlockStarted (state r) \<Longrightarrow>
   text_delta content r =
     r\<lparr>written := written r @ [content_block_delta_text (st_textBlockIndex (state r)) content]\<rparr>"
  by (simp add: text_delta_def writeAnthropicEvent_def)

lemma text_delta_first:
  "\<not> st_textBlockStarted (state r) \<Longrightarrow>
   text_delta content r =
     r\<lparr>state := (state r)\<lparr>st_textBlockIndex := st_nextBlockIndex (state r),
                           st_nextBlockIndex := st_nextBlockIndex (state r) + 1,
                           st_textBlockStarted := True\<rparr>,
       written := written r @ [content_block_start_text (st_nextBlockIndex (state r)),
                               content_block_delta_text (st_nextBlockIndex (state r)) content]\<rparr>"
  by (simp add: text_delta_def writeAnthropicEvent_def Let_def)

lemma absorb_fragment_fields:
  "tb_index (absorb_fragment call b) = tb_index b"
  "tb_started (absorb_fragment call b) = tb_started b"
  "tb_finished (absorb_fragment call b) = tb_finished b"
  "tb_arguments (absorb_fragment call b) = tb_arguments b @ call_Function_Arguments call"
  by (simp_all add: absorb_fragment_def Let_def)

lemma tool_call_delta_known:
  "st_toolBlocks (state r) (call_Index call) = Some b \<Longrightarrow> tb_started b \<Longrightarrow>
   tool_call_delta now call r =
     r\<lparr>hasToolCalls := True,
       state := (state r)\<lparr>st_toolBlocks :=
                  (st_toolBlocks (state r))(call_Index call \<mapsto> absorb_fragment call b)\<rparr>\<rparr>"
  by (simp add: tool_call_delta_def Let_def absorb_fragment_fields)

lemma created_block_fields:
  "tb_index (created_block now call r) = st_nextBlockIndex (state r)"
  "tb_started (created_block now call r)"
  "\<not> tb_finished (created_block now call r)"
  "tb_arguments (created_block now call r) = call_Function_Arguments call"
  by (simp_all add: created_block_def absorb_fragment_fields new_tool_block_def Let_def
      split: prod.splits)

lemma tool_call_delta_new_state:
  assumes "st_toolBlocks (state r) (call_Index call) = None"
  shows "state (tool_call_delta now call r) =
     (state r)\<lparr>st_toolBlocks :=
                  (st_toolBlocks (state r))(call_Index call \<mapsto> created_block now call r),
               st_nextBlockIndex := st_nextBlockIndex (state r) + 1\<rparr>"
  using assms
  by (simp add: tool_call_delta_def created_block_def new_tool_block_def absorb_fragment_fields
      writeAnthropicEvent_def Let_def split: prod.splits)

lemma tool_call_delta_new_written:
  assumes "st_toolBlocks (state r) (call_Index call) = None"
  shows "written (tool_call_delta now call r) =
     written r @ [content_block_start_tool_use (st_nextBlockIndex (state r))
                    (tb_id (created_block now call r)) (tb_name (created_block now call r))]"
  using assms
  by (simp add: tool_call_delta_def created_block_def new_tool_block_def absorb_fragment_fields
      absorb_fragment_def
      writeAnthropicEvent_def Let_def split: prod.splits)

subsection \<open>The loop keeps the invariant\<close>

lemma block_start_indices_append:
  "block_start_indices (xs @ ys) = block_start_indices xs @ block_start_indices ys"
  by (simp add: block_start_indices_def map_filter_def)

lemma block_start_indices_Nil: "block_start_indices [] = []"
  by (simp add: block_start_indices_def map_filter_def)

lemma block_start_indices_Cons:
  "block_start_indices (e # es) =
     (case start_index e of None \<Rightarrow> block_start_indices es | Some i \<Rightarrow> i # block_start_indices es)"
  by (simp add: block_start_indices_def map_filter_def split: option.splits)

lemmas block_start_indices_simps =
  block_start_indices_append block_start_indices_Nil block_start_indices_Cons

lemma tracks_seen:
  assumes "tracks r ks" "k \<in> set ks"
  shows "\<exists>i. index_of_block (state r) k = Some i"
proof -
  from assms(2) obtain i where "i < length ks" "ks ! i = k" by (auto simp: in_set_conv_nth)
  with assms(1) show ?thesis by (auto simp: tracks_def)
qed

text \<open>How the invariant is re-established when a block gets the next index.\<close>

lemma tracks_extend:
  assumes t: "tracks r ks" and new: "k \<notin> set ks"
    and nxt: "st_nextBlockIndex (state r') = int (length ks) + 1"
    and idx: "\<And>k'. index_of_block (state r') k' =
                (if k' = k then Some (int (length ks)) else index_of_block (state r) k')"
    and wr: "block_start_indices (written r') = block_start_indices (written r) @ [int (length ks)]"
    and blocks: "\<And>p b. st_toolBlocks (state r') p = Some b \<Longrightarrow> tb_started b \<and> \<not> tb_finished b"
  shows "tracks r' (add_key ks k)"
proof -
  have old: "\<forall>i<length ks. index_of_block (state r) (ks ! i) = Some (int i)"
    and unseen: "\<forall>k. k \<notin> set ks \<longrightarrow> index_of_block (state r) k = None"
    and dist: "distinct ks"
    and starts: "block_start_indices (written r) = map int [0..<length ks]"
    using t by (simp_all add: tracks_def)
  have "index_of_block (state r') ((ks @ [k]) ! i) = Some (int i)" if "i < length (ks @ [k])" for i
  proof (cases "i < length ks")
    case True
    then have "ks ! i \<noteq> k" using new nth_mem by metis
    then show ?thesis using True old by (simp add: idx nth_append)
  next
    case False
    then have "i = length ks" using that by simp
    then show ?thesis by (simp add: idx)
  qed
  moreover have "\<forall>k'. k' \<notin> set (ks @ [k]) \<longrightarrow> index_of_block (state r') k' = None"
    using unseen by (simp add: idx)
  ultimately show ?thesis
    using new dist nxt wr starts blocks unfolding tracks_def add_key_def by simp
qed

lemma tracks_text_delta:
  assumes "tracks r ks"
  shows "tracks (text_delta content r) (add_key ks TextBlock)"
proof (cases "TextBlock \<in> set ks")
  case True
  then have "st_textBlockStarted (state r)"
    using tracks_seen [OF assms True] by (auto split: if_splits)
  then show ?thesis using assms True
    by (simp add: text_delta_started add_key_def tracks_def block_start_indices_simps)
next
  case False
  then have ns: "\<not> st_textBlockStarted (state r)"
    using assms by (auto simp: tracks_def split: if_splits)
  have nb: "st_nextBlockIndex (state r) = int (length ks)"
    using assms by (simp add: tracks_def)
  show ?thesis
  proof (rule tracks_extend [OF assms False])
    show "st_nextBlockIndex (state (text_delta content r)) = int (length ks) + 1"
      by (simp add: text_delta_first [OF ns] nb)
    show "index_of_block (state (text_delta content r)) k' =
        (if k' = TextBlock then Some (int (length ks)) else index_of_block (state r) k')" for k'
      by (cases k') (simp_all add: text_delta_first [OF ns] nb)
    show "block_start_indices (written (text_delta content r)) =
        block_start_indices (written r) @ [int (length ks)]"
      by (simp add: text_delta_first [OF ns] nb block_start_indices_simps)
    show "tb_started b \<and> \<not> tb_finished b"
      if "st_toolBlocks (state (text_delta content r)) p = Some b" for p b
      using that assms by (simp add: text_delta_first [OF ns] tracks_def)
  qed
qed

lemma tracks_tool_call_delta:
  assumes "tracks r ks"
  shows "tracks (tool_call_delta now call r) (add_key ks (ToolBlock (call_Index call)))"
proof (cases "ToolBlock (call_Index call) \<in> set ks")
  case True
  then obtain b where b: "st_toolBlocks (state r) (call_Index call) = Some b"
    using tracks_seen [OF assms True] by auto
  then have sb: "tb_started b" "\<not> tb_finished b" using assms by (auto simp: tracks_def)
  have idx: "index_of_block (state (tool_call_delta now call r)) k = index_of_block (state r) k" for k
    using b by (cases k) (simp_all add: tool_call_delta_known [OF b sb(1)] absorb_fragment_fields)
  show ?thesis
    using assms True sb unfolding tracks_def idx
    by (simp add: add_key_def tool_call_delta_known [OF b sb(1)] absorb_fragment_fields)
next
  case False
  then have none: "st_toolBlocks (state r) (call_Index call) = None"
    using assms by (auto simp: tracks_def)
  have nb: "st_nextBlockIndex (state r) = int (length ks)"
    using assms by (simp add: tracks_def)
  show ?thesis
  proof (rule tracks_extend [OF assms False])
    show "st_nextBlockIndex (state (tool_call_delta now call r)) = int (length ks) + 1"
      by (simp add: tool_call_delta_new_state [OF none] nb)
    show "index_of_block (state (tool_call_delta now call r)) k' =
        (if k' = ToolBlock (call_Index call) then Some (int (length ks))
         else index_of_block (state r) k')" for k'
      by (cases k') (simp_all add: tool_call_delta_new_state [OF none] nb created_block_fields)
    show "block_start_indices (written (tool_call_delta now call r)) =
        block_start_indices (written r) @ [int (length ks)]"
      by (simp add: tool_call_delta_new_written [OF none] nb block_start_indices_simps)
    show "tb_started b \<and> \<not> tb_finished b"
      if "st_toolBlocks (state (tool_call_delta now call r)) p = Some b" for p b
      using that assms
      by (auto simp: tool_call_delta_new_state [OF none] tracks_def created_block_fields
          split: if_splits)
  qed
qed

lemma tracks_tool_calls:
  "tracks r ks \<Longrightarrow>
   tracks (foldl (\<lambda>r call. tool_call_delta now call r) r calls)
     (foldl add_key ks (map (\<lambda>call. ToolBlock (call_Index call)) calls))"
  by (induction calls arbitrary: r ks) (simp_all add: tracks_tool_call_delta)

lemma tracks_choice_delta:
  assumes "tracks r ks"
  shows "tracks (choice_delta now r choice) (foldl add_key ks (choice_keys choice))"
proof -
  define r1 where "r1 = (case choice_FinishReason choice of
                  None \<Rightarrow> r | Some f \<Rightarrow> r\<lparr>lastFinishReason := Some f\<rparr>)"
  have "tracks r1 ks"
    using assms by (simp add: r1_def tracks_def split: option.splits)
  then have "tracks (if Delta_Content choice \<noteq> '''' then text_delta (Delta_Content choice) r1 else r1)
     (foldl add_key ks (if Delta_Content choice \<noteq> '''' then [TextBlock] else []))"
    by (simp add: tracks_text_delta)
  then show ?thesis
    unfolding choice_delta_def choice_keys_def r1_def [symmetric] Let_def foldl_append
    by (rule tracks_tool_calls)
qed

lemma tracks_choices:
  "tracks r ks \<Longrightarrow>
   tracks (foldl (choice_delta now) r choices) (foldl add_key ks (concat (map choice_keys choices)))"
  by (induction choices arbitrary: r ks) (simp_all add: tracks_choice_delta)

lemma index_of_block_frame:
  "st_textBlockStarted s' = st_textBlockStarted s \<Longrightarrow>
   st_textBlockIndex s' = st_textBlockIndex s \<Longrightarrow>
   st_toolBlocks s' = st_toolBlocks s \<Longrightarrow>
   index_of_block s' k = index_of_block s k"
  by (cases k) simp_all

lemma tracks_frame:
  assumes "st_textBlockStarted (state r') = st_textBlockStarted (state r)"
    and "st_textBlockIndex (state r') = st_textBlockIndex (state r)"
    and "st_toolBlocks (state r') = st_toolBlocks (state r)"
    and "st_nextBlockIndex (state r') = st_nextBlockIndex (state r)"
    and "block_start_indices (written r') = block_start_indices (written r)"
  shows "tracks r' ks = tracks r ks"
  unfolding tracks_def index_of_block_frame [OF assms(1-3)] assms(3-5) ..

lemma tracks_process_chunk:
  assumes "tracks r ks"
  shows "tracks (process_chunk now fallbackModel chunk r) (foldl add_key ks (chunk_keys chunk))"
proof -
  have "tracks (store_usage chunk (start_message now fallbackModel chunk r)) ks = tracks r ks"
    by (rule tracks_frame)
      (simp_all add: store_usage_def start_message_def writeAnthropicEvent_def Let_def
        block_start_indices_simps split: option.splits)
  with assms have "tracks (store_usage chunk (start_message now fallbackModel chunk r)) ks"
    by simp
  then show ?thesis
    unfolding process_chunk_def chunk_keys_def by (rule tracks_choices)
qed

lemma tracks_read_loop:
  "tracks r ks \<Longrightarrow>
   tracks (fst (read_loop now fallbackModel reads r))
     (foldl add_key ks (concat (map chunk_keys (processed_chunks reads))))"
proof (induction now fallbackModel reads r arbitrary: ks rule: read_loop.induct)
  case (6 now fallbackModel chunk eof rest r)
  then show ?case
    by (simp add: tracks_process_chunk Let_def)
qed simp_all

lemma tracks_initial: "tracks initial_reframer []"
proof -
  have "index_of_block (state initial_reframer) k = None" for k
    by (cases k) (simp_all add: initial_reframer_def)
  then show ?thesis
    by (simp add: tracks_def) (simp add: initial_reframer_def block_start_indices_Nil)
qed

lemma tracks_run:
  "tracks (fst (read_loop now fallbackModel reads initial_reframer)) (seen_blocks reads)"
  unfolding seen_blocks_def first_appearances_def
  by (rule tracks_read_loop [OF tracks_initial])

subsection \<open>Closing starts no block\<close>

lemma close_tool_block_no_starts: "block_start_indices (fst (close_tool_block b)) = []"
  by (simp add: close_tool_block_def Let_def block_start_indices_simps)

lemma close_tool_block_at_Some:
  "st_toolBlocks (state r) k = Some b \<Longrightarrow>
   close_tool_block_at r k =
     r\<lparr>state := (state r)\<lparr>st_toolBlocks := (st_toolBlocks (state r))(k \<mapsto> snd (close_tool_block b))\<rparr>,
       written := written r @ fst (close_tool_block b)\<rparr>"
  by (simp add: close_tool_block_at_def split: prod.splits)

lemma close_tool_block_at_None:
  "st_toolBlocks (state r) k = None \<Longrightarrow> close_tool_block_at r k = r"
  by (simp add: close_tool_block_at_def)

lemma close_tool_block_at_starts:
  "block_start_indices (written (close_tool_block_at r k)) = block_start_indices (written r)"
  by (cases "st_toolBlocks (state r) k")
    (simp_all add: close_tool_block_at_Some close_tool_block_at_None
      block_start_indices_append close_tool_block_no_starts)

lemma close_all_starts:
  "block_start_indices (written (foldl close_tool_block_at r order)) =
   block_start_indices (written r)"
  by (induction order arbitrary: r) (simp_all add: close_tool_block_at_starts)

lemma closing_starts:
  "block_start_indices (written (closing order r)) = block_start_indices (written r)"
  by (simp add: closing_def Let_def writeAnthropicEvent_def block_start_indices_simps
      close_all_starts split: option.splits)

lemma stream_starts:
  "block_start_indices (fst (streamOpenAIToAnthropic now fallbackModel order reads)) =
   block_start_indices (written (fst (read_loop now fallbackModel reads initial_reframer)))"
  by (simp add: streamOpenAIToAnthropic_def closing_starts split: prod.splits loop_exit.splits)

lemma tracks_injective:
  assumes "tracks r ks"
    and "index_of_block (state r) k = Some i" and "index_of_block (state r) k' = Some i"
  shows "k = k'"
proof -
  have in_ks: "k \<in> set ks" "k' \<in> set ks"
    using assms by (auto simp: tracks_def)
  then obtain a b where a: "a < length ks" "ks ! a = k" and b: "b < length ks" "ks ! b = k'"
    by (auto simp: in_set_conv_nth)
  have "index_of_block (state r) k = Some (int a)" "index_of_block (state r) k' = Some (int b)"
    using assms(1) a b by (auto simp: tracks_def)
  with assms(2,3) have "a = b" by simp
  with a b show ?thesis by simp
qed

text \<open>
  C3: for every sequence of reads, the blocks the run has seen, in the order of their
  first appearance (the text block at the first non-empty text delta, a tool block at
  the first fragment of its upstream position), have the indices \<open>0, 1, 2, ...\<close> in this
  order; a block not seen has no index; no two blocks share an index; the counter is the
  number of blocks seen; and the \<^verbatim>\<open>content_block_start\<close> events of the whole output
  carry exactly these indices, strictly increasing and without repetition.
\<close>

theorem C3_block_indices_first_appearance:
  "let ks = seen_blocks reads;
       st = state (fst (read_loop now fallbackModel reads initial_reframer));
       starts = block_start_indices (fst (streamOpenAIToAnthropic now fallbackModel order reads))
   in distinct ks \<and>
      (\<forall>i<length ks. index_of_block st (ks ! i) = Some (int i)) \<and>
      (\<forall>k. k \<notin> set ks \<longrightarrow> index_of_block st k = None) \<and>
      (\<forall>k k' i. index_of_block st k = Some i \<and> index_of_block st k' = Some i \<longrightarrow> k = k') \<and>
      st_nextBlockIndex st = int (length ks) \<and>
      starts = map int [0..<length ks] \<and>
      sorted_wrt (<) starts \<and> distinct starts"
proof -
  define r where "r = fst (read_loop now fallbackModel reads initial_reframer)"
  have t: "tracks r (seen_blocks reads)"
    unfolding r_def by (rule tracks_run)
  have starts: "block_start_indices (fst (streamOpenAIToAnthropic now fallbackModel order reads)) =
      map int [0..<length (seen_blocks reads)]"
    using t by (simp add: stream_starts r_def [symmetric] tracks_def)
  have "sorted_wrt (<) (map int [0..<length (seen_blocks reads)])"
    by (simp add: sorted_wrt_map sorted_wrt_upt)
  moreover have "distinct (map int [0..<length (seen_blocks reads)])"
    by (simp add: distinct_map)
  moreover have "\<forall>k k' i. index_of_block (state r) k = Some i \<and>
      index_of_block (state r) k' = Some i \<longrightarrow> k = k'"
    using tracks_injective [OF t] by blast
  ultimately show ?thesis
    using t starts unfolding Let_def r_def [symmetric] by (simp add: tracks_def)
qed

subsection \<open>The text scenario\<close>

lemma close_no_tool_blocks:
  "st_toolBlocks (state r) = Map.empty \<Longrightarrow> foldl close_tool_block_at r order = r"
  by (induction order arbitrary: r) (simp_all add: close_tool_block_at_def)

lemmas reframer_defs = process_chunk_def start_message_def store_usage_def choice_delta_def
  text_delta_def tool_call_delta_def new_tool_block_def absorb_fragment_def
  writeAnthropicEvent_def generateToolCallID_def initial_reframer_def

text \<open>
  C2: fed the chunk with id \<^verbatim>\<open>x\<close>, model \<^verbatim>\<open>m\<close> and text \<^verbatim>\<open>Hi\<close>, then the chunk with
  text \<^verbatim>\<open> there\<close> and finish reason \<^verbatim>\<open>stop\<close>, then \<^verbatim>\<open>[DONE]\<close>, the reframer writes
  exactly seven events: \<^verbatim>\<open>message_start\<close> (id x, model m), \<^verbatim>\<open>content_block_start\<close> of a
  text block at index 0, the text deltas \<^verbatim>\<open>Hi\<close> and \<^verbatim>\<open> there\<close>, \<^verbatim>\<open>content_block_stop\<close>
  at index 0, \<^verbatim>\<open>message_delta\<close> with stop reason \<^verbatim>\<open>end_turn\<close>, and \<^verbatim>\<open>message_stop\<close>;
  and it returns \<^verbatim>\<open>nil\<close>. This holds for every clock, fallback model and map order.
\<close>

theorem C2_text_stream_scenario:
  "streamOpenAIToAnthropic now fallbackModel order
     [Data (Json (Some scenario_chunk1)) False, Data (Json (Some scenario_chunk2)) False,
      Data DoneMarker eof] =
   ([message_start ''x'' ''m'', content_block_start_text 0, content_block_delta_text 0 ''Hi'',
     content_block_delta_text 0 '' there'', content_block_stop 0,
     message_delta ''end_turn'' 0 None, message_stop], ReturnedNil)"
  by (simp add: streamOpenAIToAnthropic_def reframer_defs scenario_chunk1_def scenario_chunk2_def
      closing_def close_no_tool_blocks mapStopReason_def Let_def)

subsection \<open>A run with interleaved tool calls\<close>

lemma seen_blocks_interleaved:
  "seen_blocks interleaved_reads = [TextBlock, ToolBlock 7, ToolBlock 3]"
  by (simp add: seen_blocks_def interleaved_reads_def first_appearances_def chunk_keys_def
      choice_keys_def chunk_of_def tool_fragment_def add_key_def)

text \<open>
  C3 at the interleaved run: the tool call at position 3, third to appear, has index 2;
  position 5 never appears and has none; the start events carry 0, 1, 2.
\<close>

theorem C3_block_indices_witness:
  "index_of_block (state (fst (read_loop (\<lambda>k. ''1'') ''m'' interleaved_reads initial_reframer)))
     (ToolBlock 3) = Some 2 \<and>
   index_of_block (state (fst (read_loop (\<lambda>k. ''1'') ''m'' interleaved_reads initial_reframer)))
     (ToolBlock 5) = None \<and>
   block_start_indices (fst (streamOpenAIToAnthropic (\<lambda>k. ''1'') ''m'' [3, 7] interleaved_reads)) =
     [0, 1, 2]"
proof -
  note T = C3_block_indices_first_appearance
      [of interleaved_reads "\<lambda>k. ''1''" "''m''" "[3, 7]", unfolded Let_def seen_blocks_interleaved]
  note seen = T [THEN conjunct2, THEN conjunct1, rule_format, of 2]
  note unseen = T [THEN conjunct2, THEN conjunct2, THEN conjunct1, rule_format, of "ToolBlock 5"]
  note starts = T [THEN conjunct2, THEN conjunct2, THEN conjunct2, THEN conjunct2,
      THEN conjunct2, THEN conjunct1]
  have "[0..<length [TextBlock, ToolBlock 7, ToolBlock 3]] = [0, 1, 2]"
    by (simp add: upt_rec)
  with starts have
    "block_start_indices (fst (streamOpenAIToAnthropic (\<lambda>k. ''1'') ''m'' [3, 7] interleaved_reads)) =
       [0, 1, 2]"
    by simp
  moreover from seen have
    "index_of_block (state (fst (read_loop (\<lambda>k. ''1'') ''m'' interleaved_reads initial_reframer)))
       (ToolBlock 3) = Some 2"
    by simp
  moreover from unseen have
    "index_of_block (state (fst (read_loop (\<lambda>k. ''1'') ''m'' interleaved_reads initial_reframer)))
       (ToolBlock 5) = None"
    by simp
  ultimately show ?thesis by simp
qed

subsection \<open>The loop buffers the argument fragments\<close>

lemma fragments_at_snoc:
  "fragments_at p (calls @ [call]) =
     fragments_at p calls @ (if call_Index call = p then call_Function_Arguments call else [])"
  by (simp add: fragments_at_def)

lemma fragments_at_unseen: "p \<notin> call_Index ` set calls \<Longrightarrow> fragments_at p calls = []"
  by (induction calls) (auto simp: fragments_at_def)

lemma buffers_frame:
  assumes "st_toolBlocks (state r') = st_toolBlocks (state r)"
    and "\<forall>e\<in>set (written r'). \<forall>i. \<not> is_input_json_delta_at i e"
    and "buffers r calls"
  shows "buffers r' calls"
  using assms by (simp add: buffers_def)

lemma buffers_text_delta:
  assumes "buffers r calls"
  shows "buffers (text_delta content r) calls"
proof (cases "st_textBlockStarted (state r)")
  case True
  show ?thesis
    using assms by (intro buffers_frame [OF _ _ assms]) (auto simp: text_delta_started [OF True] buffers_def)
next
  case False
  show ?thesis
    using assms by (intro buffers_frame [OF _ _ assms]) (auto simp: text_delta_first [OF False] buffers_def)
qed

lemma buffers_tool_call_delta:
  assumes "buffers r calls"
  shows "buffers (tool_call_delta now call r) (calls @ [call])"
proof (cases "st_toolBlocks (state r) (call_Index call)")
  case None
  have unseen: "call_Index call \<notin> call_Index ` set calls"
    using assms None by (auto simp: buffers_def split: option.splits dest: spec [of _ "call_Index call"])
  have wr: "\<forall>e\<in>set (written (tool_call_delta now call r)). \<forall>i. \<not> is_input_json_delta_at i e"
    using assms by (auto simp: tool_call_delta_new_written [OF None] buffers_def)
  have "case st_toolBlocks (state (tool_call_delta now call r)) p of
            None \<Rightarrow> p \<notin> call_Index ` set (calls @ [call])
          | Some b \<Rightarrow> tb_started b \<and> \<not> tb_finished b \<and>
              tb_arguments b = fragments_at p (calls @ [call])" for p
  proof (cases "p = call_Index call")
    case True
    then show ?thesis
      by (simp add: tool_call_delta_new_state [OF None] created_block_fields fragments_at_snoc
          fragments_at_unseen [OF unseen])
  next
    case False
    have "case st_toolBlocks (state r) p of
            None \<Rightarrow> p \<notin> call_Index ` set calls
          | Some b \<Rightarrow> tb_started b \<and> \<not> tb_finished b \<and> tb_arguments b = fragments_at p calls"
      using assms by (simp add: buffers_def)
    with False show ?thesis
      by (auto simp: tool_call_delta_new_state [OF None] fragments_at_snoc split: option.splits)
  qed
  with wr show ?thesis by (simp add: buffers_def)
next
  case (Some b)
  have b: "tb_started b" "\<not> tb_finished b" "tb_arguments b = fragments_at (call_Index call) calls"
    using assms Some by (auto simp: buffers_def split: option.splits dest: spec [of _ "call_Index call"])
  note eq = tool_call_delta_known [OF Some b(1)]
  have wr: "\<forall>e\<in>set (written (tool_call_delta now call r)). \<forall>i. \<not> is_input_json_delta_at i e"
    using assms by (simp add: eq buffers_def)
  have "case st_toolBlocks (state (tool_call_delta now call r)) p of
            None \<Rightarrow> p \<notin> call_Index ` set (calls @ [call])
          | Some b \<Rightarrow> tb_started b \<and> \<not> tb_finished b \<and>
              tb_arguments b = fragments_at p (calls @ [call])" for p
  proof (cases "p = call_Index call")
    case True
    then show ?thesis
      using b by (simp add: eq absorb_fragment_fields fragments_at_snoc)
  next
    case False
    have "case st_toolBlocks (state r) p of
            None \<Rightarrow> p \<notin> call_Index ` set calls
          | Some b \<Rightarrow> tb_started b \<and> \<not> tb_finished b \<and> tb_arguments b = fragments_at p calls"
      using assms by (simp add: buffers_def)
    with False show ?thesis
      by (auto simp: eq fragments_at_snoc split: option.splits)
  qed
  with wr show ?thesis by (simp add: buffers_def)
qed

lemma buffers_tool_calls:
  "buffers r calls \<Longrightarrow>
   buffers (foldl (\<lambda>r call. tool_call_delta now call r) r new) (calls @ new)"
proof (induction new arbitrary: r calls)
  case Nil
  then show ?case by simp
next
  case (Cons call new)
  from Cons.IH [OF buffers_tool_call_delta [OF Cons.prems], of now call]
  show ?case by simp
qed

lemma buffers_choice_delta:
  assumes "buffers r calls"
  shows "buffers (choice_delta now r choice) (calls @ Delta_ToolCalls choice)"
proof -
  define r1 where "r1 = (case choice_FinishReason choice of
                  None \<Rightarrow> r | Some f \<Rightarrow> r\<lparr>lastFinishReason := Some f\<rparr>)"
  have "buffers r1 calls"
    using assms by (simp add: r1_def buffers_def split: option.splits)
  then have "buffers (if Delta_Content choice \<noteq> '''' then text_delta (Delta_Content choice) r1 else r1) calls"
    by (simp add: buffers_text_delta)
  then show ?thesis
    unfolding choice_delta_def r1_def [symmetric] Let_def
    by (rule buffers_tool_calls)
qed

lemma buffers_choices:
  "buffers r calls \<Longrightarrow>
   buffers (foldl (choice_delta now) r choices) (calls @ concat (map Delta_ToolCalls choices))"
proof (induction choices arbitrary: r calls)
  case Nil
  then show ?case by simp
next
  case (Cons choice choices)
  from Cons.IH [OF buffers_choice_delta [OF Cons.prems], of now choice]
  show ?case by simp
qed

lemma buffers_process_chunk:
  assumes "buffers r calls"
  shows "buffers (process_chunk now fallbackModel chunk r) (calls @ chunk_calls chunk)"
proof -
  have "buffers (store_usage chunk (start_message now fallbackModel chunk r)) calls"
    using assms
    by (intro buffers_frame [OF _ _ assms])
      (auto simp: store_usage_def start_message_def writeAnthropicEvent_def Let_def buffers_def
        split: option.splits)
  then show ?thesis
    unfolding process_chunk_def chunk_calls_def by (rule buffers_choices)
qed

lemma buffers_read_loop:
  "buffers r calls \<Longrightarrow>
   buffers (fst (read_loop now fallbackModel reads r))
     (calls @ concat (map chunk_calls (processed_chunks reads)))"
proof (induction now fallbackModel reads r arbitrary: calls rule: read_loop.induct)
  case (6 now fallbackModel chunk eof rest r)
  have b: "buffers (process_chunk now fallbackModel chunk r) (calls @ chunk_calls chunk)"
    by (rule buffers_process_chunk [OF "6.prems"])
  show ?case
  proof (cases eof)
    case True
    with b show ?thesis by simp
  next
    case False
    from "6.IH" [OF refl False b] False show ?thesis by simp
  qed
qed simp_all

lemma buffers_run:
  "buffers (fst (read_loop now fallbackModel reads initial_reframer))
     (concat (map chunk_calls (processed_chunks reads)))"
proof -
  have "buffers initial_reframer []"
    by (simp add: buffers_def initial_reframer_def)
  from buffers_read_loop [OF this] show ?thesis by simp
qed

subsection \<open>The events of closing\<close>

lemma close_tool_block_at_written:
  "written (close_tool_block_at r k) = written r @ close_events (st_toolBlocks (state r)) k"
  by (cases "st_toolBlocks (state r) k")
    (simp_all add: close_tool_block_at_Some close_tool_block_at_None close_events_def)

lemma close_tool_block_at_others:
  "k' \<noteq> k \<Longrightarrow>
   close_events (st_toolBlocks (state (close_tool_block_at r k))) k' =
   close_events (st_toolBlocks (state r)) k'"
  by (cases "st_toolBlocks (state r) k")
    (simp_all add: close_tool_block_at_Some close_tool_block_at_None close_events_def)

lemma close_all_written:
  "distinct order \<Longrightarrow>
   written (foldl close_tool_block_at r order) =
   written r @ concat (map (close_events (st_toolBlocks (state r))) order)"
proof (induction order arbitrary: r)
  case Nil
  then show ?case by simp
next
  case (Cons k order)
  have same: "map (close_events (st_toolBlocks (state (close_tool_block_at r k)))) order =
        map (close_events (st_toolBlocks (state r))) order"
  proof (rule map_cong [OF refl])
    fix k' assume "k' \<in> set order"
    with Cons.prems have "k' \<noteq> k" by auto
    then show "close_events (st_toolBlocks (state (close_tool_block_at r k))) k' =
        close_events (st_toolBlocks (state r)) k'"
      by (rule close_tool_block_at_others)
  qed
  from Cons.prems have "distinct order" by simp
  from Cons.IH [OF this, of "close_tool_block_at r k"] show ?case
    by (simp add: close_tool_block_at_written same)
qed

lemma close_tool_block_at_frame:
  "lastFinishReason (close_tool_block_at r k) = lastFinishReason r"
  "hasToolCalls (close_tool_block_at r k) = hasToolCalls r"
  "st_promptTokens (state (close_tool_block_at r k)) = st_promptTokens (state r)"
  "st_completionTokens (state (close_tool_block_at r k)) = st_completionTokens (state r)"
  by (cases "st_toolBlocks (state r) k";
      simp add: close_tool_block_at_Some close_tool_block_at_None)+

lemma close_all_frame:
  "lastFinishReason (foldl close_tool_block_at r order) = lastFinishReason r"
  "hasToolCalls (foldl close_tool_block_at r order) = hasToolCalls r"
  "st_promptTokens (state (foldl close_tool_block_at r order)) = st_promptTokens (state r)"
  "st_completionTokens (state (foldl close_tool_block_at r order)) = st_completionTokens (state r)"
  by (induction order arbitrary: r) (simp_all add: close_tool_block_at_frame)

lemma closing_written:
  assumes "distinct order"
  shows "written (closing order r) =
     written r @
     (if st_textBlockStarted (state r) then [content_block_stop (st_textBlockIndex (state r))] else []) @
     concat (map (close_events (st_toolBlocks (state r))) order) @
     final_events r"
  by (simp add: closing_def Let_def writeAnthropicEvent_def close_all_written [OF assms]
      close_all_frame final_events_def split: option.splits)

lemma final_events_no_json: "e \<in> set (final_events r) \<Longrightarrow> \<not> is_input_json_delta_at i e"
  by (auto simp: final_events_def split: option.splits)

lemma close_events_started:
  assumes "m k = Some b" "tb_started b" "\<not> tb_finished b"
  shows "close_events m k =
     (if TrimSpace (tb_arguments b) \<noteq> ''''
      then [content_block_delta_input_json (tb_index b) (TrimSpace (tb_arguments b))] else []) @
     [content_block_stop (tb_index b)]"
  using assms by (simp add: close_events_def close_tool_block_def Let_def)

lemma close_events_json_index:
  assumes "e \<in> set (close_events m k)" "is_input_json_delta_at i e"
  shows "\<exists>b. m k = Some b \<and> tb_index b = i"
proof (cases "m k")
  case None
  with assms show ?thesis by (simp add: close_events_def)
next
  case (Some b)
  with assms have "tb_index b = i"
    by (auto simp: close_events_def close_tool_block_def Let_def split: if_splits)
  with Some show ?thesis by simp
qed

subsection \<open>The final delta of a tool block\<close>

lemma TrimSpace_samples: "TrimSpace '' {}'' = ''{}''" "TrimSpace ''  '' = ''''"
  by code_simp+

lemma padded_run:
  "streamOpenAIToAnthropic (\<lambda>k. ''1'') ''m'' [0] padded_reads =
     ([message_start ''x'' ''m'', content_block_start_tool_use 0 ''c'' ''f'',
       content_block_delta_input_json 0 ''{}'', content_block_stop 0, message_stop],
      ReturnedNil)"
  by (simp add: streamOpenAIToAnthropic_def reframer_defs padded_reads_def chunk_of_def
      tool_fragment_def closing_def close_tool_block_at_def close_tool_block_def
      TrimSpace_samples Let_def)

lemma blank_run:
  "streamOpenAIToAnthropic (\<lambda>k. ''1'') ''m'' [0] blank_reads =
     ([message_start ''x'' ''m'', content_block_start_tool_use 0 ''c'' ''f'',
       content_block_stop 0, message_stop],
      ReturnedNil)"
  by (simp add: streamOpenAIToAnthropic_def reframer_defs blank_reads_def chunk_of_def
      tool_fragment_def closing_def close_tool_block_at_def close_tool_block_def
      TrimSpace_samples Let_def)

lemma unterminated_run:
  "streamOpenAIToAnthropic (\<lambda>k. ''1'') ''m'' [0] unterminated_reads =
     ([message_start ''x'' ''m'', content_block_start_tool_use 0 ''c'' ''f''], ReturnedEOF)"
  by (simp add: streamOpenAIToAnthropic_def reframer_defs unterminated_reads_def chunk_of_def
      tool_fragment_def Let_def)

lemma read_loop_exit:
  "(snd (read_loop now fallbackModel reads r) = Break) = reaches_closing reads"
  by (induction now fallbackModel reads r rule: read_loop.induct) (simp_all add: Let_def)

text \<open>
  C4, as stated, fails. A tool call whose only argument fragment is \<^verbatim>\<open> {}\<close> (with a
  leading space) has that text as its buffer, but the final delta carries \<^verbatim>\<open>{}\<close>: the
  buffer is trimmed, not passed unmodified. A buffer of two spaces is non-empty, yet no
  \<^verbatim>\<open>input_json_delta\<close> is written for it at all. And when the input ends without
  \<^verbatim>\<open>[DONE]\<close> after the blank line that follows the last chunk, the function returns
  before the closing code: a started tool block with the buffer \<^verbatim>\<open>{}\<close> gets neither a
  final delta nor a \<^verbatim>\<open>content_block_stop\<close>.
\<close>

theorem C4_untrimmed_buffer_counterexample:
  "received_arguments 0 padded_reads = '' {}'' \<and>
   content_block_delta_input_json 0 '' {}''
     \<notin> set (fst (streamOpenAIToAnthropic (\<lambda>k. ''1'') ''m'' [0] padded_reads)) \<and>
   content_block_delta_input_json 0 ''{}''
     \<in> set (fst (streamOpenAIToAnthropic (\<lambda>k. ''1'') ''m'' [0] padded_reads)) \<and>
   received_arguments 0 blank_reads = ''  '' \<and>
   fst (streamOpenAIToAnthropic (\<lambda>k. ''1'') ''m'' [0] blank_reads) =
     [message_start ''x'' ''m'', content_block_start_tool_use 0 ''c'' ''f'',
      content_block_stop 0, message_stop] \<and>
   received_arguments 0 unterminated_reads = ''{}'' \<and>
   streamOpenAIToAnthropic (\<lambda>k. ''1'') ''m'' [0] unterminated_reads =
     ([message_start ''x'' ''m'', content_block_start_tool_use 0 ''c'' ''f''], ReturnedEOF)"
  by (simp add: padded_run blank_run unterminated_run)
    (simp add: received_arguments_def fragments_at_def chunk_calls_def padded_reads_def
      blank_reads_def unterminated_reads_def chunk_of_def tool_fragment_def)

text \<open>
  C4, amended: when the read loop ends by \<^verbatim>\<open>break\<close> (at \<^verbatim>\<open>[DONE]\<close>, or after a chunk
  read together with the end of the input), so that the closing code runs, every tool
  block of the map is started, its buffer is the concatenation of the argument fragments
  received for its position, and the output holds, for this block, one
  \<^verbatim>\<open>input_json_delta\<close> whose \<^verbatim>\<open>partial_json\<close> is the buffer with leading and trailing
  white space trimmed, present exactly when that trimmed text is non-empty, directly
  followed by the block's \<^verbatim>\<open>content_block_stop\<close>; no other \<^verbatim>\<open>input_json_delta\<close> in the
  output carries the block's index. Here \<open>r\<close> is the state in which the loop ends, and
  the order in which Go visits the map is any list of the map's keys without repetition.
  What is written when the loop ends otherwise is not part of this statement.
\<close>

theorem C4_final_delta_is_trimmed_buffer:
  assumes closes: "reaches_closing reads"
    and final: "r = fst (read_loop now fallbackModel reads initial_reframer)"
    and order: "distinct order" "set order = dom (st_toolBlocks (state r))"
    and block: "st_toolBlocks (state r) p = Some block"
  shows "tb_started block \<and> tb_arguments block = received_arguments p reads \<and>
     (\<exists>pre post. fst (streamOpenAIToAnthropic now fallbackModel order reads) =
         pre @
         (if TrimSpace (tb_arguments block) \<noteq> ''''
          then [content_block_delta_input_json (tb_index block) (TrimSpace (tb_arguments block))]
          else []) @
         [content_block_stop (tb_index block)] @ post \<and>
        (\<forall>e\<in>set (pre @ post). \<not> is_input_json_delta_at (tb_index block) e))"
proof -
  let ?m = "st_toolBlocks (state r)"
  have "snd (read_loop now fallbackModel reads initial_reframer) = Break"
    using closes by (simp add: read_loop_exit)
  with final have loop: "read_loop now fallbackModel reads initial_reframer = (r, Break)"
    by (simp add: prod_eq_iff)
  have r: "r = fst (read_loop now fallbackModel reads initial_reframer)"
    using loop by simp
  have t: "tracks r (seen_blocks reads)"
    unfolding r by (rule tracks_run)
  have b: "buffers r (concat (map chunk_calls (processed_chunks reads)))"
    unfolding r by (rule buffers_run)
  from b block have blk: "tb_started block" "\<not> tb_finished block"
    and args: "tb_arguments block = received_arguments p reads"
    by (auto simp: buffers_def received_arguments_def split: option.splits dest: spec [of _ p])
  from order block have "p \<in> set order" by auto
  then obtain o1 o2 where split: "order = o1 @ p # o2"
    by (auto simp: in_set_conv_decomp)
  with order(1) have notin: "p \<notin> set o1" "p \<notin> set o2" by auto
  define pre where "pre = written r @
     (if st_textBlockStarted (state r) then [content_block_stop (st_textBlockIndex (state r))] else []) @
     concat (map (close_events ?m) o1)"
  define post where "post = concat (map (close_events ?m) o2) @ final_events r"
  have out: "fst (streamOpenAIToAnthropic now fallbackModel order reads) =
      pre @ close_events ?m p @ post"
  proof -
    have "concat (map (close_events ?m) order) =
        concat (map (close_events ?m) o1) @ close_events ?m p @ concat (map (close_events ?m) o2)"
      by (simp add: split)
    with closing_written [OF order(1), of r] have "written (closing order r) = pre @ close_events ?m p @ post"
      by (simp add: pre_def post_def)
    then show ?thesis
      by (simp add: streamOpenAIToAnthropic_def loop)
  qed
  have others: "\<not> is_input_json_delta_at (tb_index block) e"
    if "e \<in> set (close_events ?m k)" "k \<noteq> p" for e k
  proof
    assume "is_input_json_delta_at (tb_index block) e"
    from close_events_json_index [OF that(1) this]
    obtain b' where b': "?m k = Some b'" "tb_index b' = tb_index block" by blast
    then have "index_of_block (state r) (ToolBlock k) = Some (tb_index block)"
      "index_of_block (state r) (ToolBlock p) = Some (tb_index block)"
      using block by simp_all
    from tracks_injective [OF t this] that(2) show False by simp
  qed
  have "\<not> is_input_json_delta_at (tb_index block) e" if "e \<in> set (pre @ post)" for e
  proof -
    from that consider "e \<in> set (written r)"
      | "e = content_block_stop (st_textBlockIndex (state r))"
      | k where "k \<in> set o1 \<union> set o2" "e \<in> set (close_events ?m k)"
      | "e \<in> set (final_events r)"
      by (auto simp: pre_def post_def split: if_splits)
    then show ?thesis
    proof cases
      case 1
      with b show ?thesis by (simp add: buffers_def)
    next
      case 2
      then show ?thesis by simp
    next
      case 3
      with notin have "k \<noteq> p" by auto
      from others [OF 3(2) this] show ?thesis .
    next
      case 4
      then show ?thesis by (rule final_events_no_json)
    qed
  qed
  moreover have "close_events ?m p =
     (if TrimSpace (tb_arguments block) \<noteq> ''''
      then [content_block_delta_input_json (tb_index block) (TrimSpace (tb_arguments block))]
      else []) @
     [content_block_stop (tb_index block)]"
    using block blk by (rule close_events_started)
  ultimately show ?thesis
    using out blk args
    by (intro conjI exI [of _ pre] exI [of _ post]) simp_all
qed

lemma padded_loop:
  "read_loop (\<lambda>k. ''1'') ''m'' padded_reads initial_reframer = (padded_final, Break)"
  by (simp add: reframer_defs padded_reads_def chunk_of_def tool_fragment_def padded_final_def
      padded_block_def Let_def)

text \<open>
  C4 at the run whose only tool call has the buffer \<^verbatim>\<open> {}\<close>: the final delta carries
  \<^verbatim>\<open>{}\<close> and is followed by the stop of block 0.
\<close>

theorem C4_final_delta_witness:
  "tb_arguments padded_block = received_arguments 0 padded_reads \<and>
   (\<exists>pre post. fst (streamOpenAIToAnthropic (\<lambda>k. ''1'') ''m'' [0] padded_reads) =
       pre @ [content_block_delta_input_json 0 ''{}''] @ [content_block_stop 0] @ post \<and>
      (\<forall>e\<in>set (pre @ post). \<not> is_input_json_delta_at 0 e))"
proof -
  have closes: "reaches_closing padded_reads"
    by (simp add: padded_reads_def)
  have final: "padded_final = fst (read_loop (\<lambda>k. ''1'') ''m'' padded_reads initial_reframer)"
    by (simp add: padded_loop)
  have order: "distinct [0::int]" "set [0] = dom (st_toolBlocks (state padded_final))"
    by (simp_all add: padded_final_def)
  have block: "st_toolBlocks (state padded_final) 0 = Some padded_block"
    by (simp add: padded_final_def)
  have fields: "tb_index padded_block = 0" "TrimSpace (tb_arguments padded_block) = ''{}''"
    by (simp_all add: padded_block_def TrimSpace_samples)
  from C4_final_delta_is_trimmed_buffer [OF closes final order block]
  show ?thesis unfolding fields by simp
qed

section \<open>Properties of the request translator\<close>

lemma handleAnthropic_request_passes_parameters:
  "oa_max_tokens (handleAnthropic_request defaultModel marshal now req) =
     (if req_MaxTokens req > 0 then Some (req_MaxTokens req) else None) \<and>
   oa_temperature (handleAnthropic_request defaultModel marshal now req) = req_Temperature req \<and>
   oa_top_p (handleAnthropic_request defaultModel marshal now req) = req_TopP req \<and>
   oa_top_k (handleAnthropic_request defaultModel marshal now req) = req_TopK req \<and>
   oa_stop (handleAnthropic_request defaultModel marshal now req) =
     (if req_StopSequences req \<noteq> [] then Some (req_StopSequences req) else None)"
  by (simp add: handleAnthropic_request_def split: option.splits)

lemma HandleAnthropic_request_passes_parameters:
  "oa_max_tokens (HandleAnthropic_request defaultModel marshal now req) =
     (if req_MaxTokens req > 0 then Some (req_MaxTokens req) else None) \<and>
   oa_temperature (HandleAnthropic_request defaultModel marshal now req) = req_Temperature req \<and>
   oa_top_p (HandleAnthropic_request defaultModel marshal now req) = req_TopP req \<and>
   oa_stop (HandleAnthropic_request defaultModel marshal now req) =
     (if req_StopSequences req \<noteq> [] then Some (req_StopSequences req) else None)"
  by (simp add: HandleAnthropic_request_def split: option.splits)

text \<open>
  C5 holds of the monolithic handlers (lemma \<open>handleAnthropic_request_passes_parameters\<close>)
  and, but for \<^verbatim>\<open>top_k\<close>, of the Gin-based ones. The Gin-based handlers drop an
  explicitly set \<^verbatim>\<open>top_k\<close>: on a request that sets it to \<open>k\<close>, their flat request has
  no \<^verbatim>\<open>top_k\<close>, where the monolithic one carries \<open>k\<close>.
\<close>

theorem C5_gin_request_drops_top_k:
  "oa_top_k (HandleAnthropic_request defaultModel marshal now (req\<lparr>req_TopK := Some k\<rparr>)) = None \<and>
   oa_top_k (handleAnthropic_request defaultModel marshal now (req\<lparr>req_TopK := Some k\<rparr>)) = Some k"
  by (simp add: HandleAnthropic_request_def handleAnthropic_request_def)

lemma parseAnthropicBlock_tool_result:
  "index_map block ''type'' = JString ''tool_result'' \<Longrightarrow>
   parseAnthropicBlock marshal now block (ps, k) =
     (ps\<lparr>toolResults := toolResults ps @ [tool_result_message marshal block]\<rparr>, k)"
  by (simp add: parseAnthropicBlock_def tool_result_message_def as_string_def Let_def)

lemma parse_tool_result_blocks:
  assumes "\<forall>block\<in>set blocks. index_map block ''type'' = JString ''tool_result''"
  shows "foldl (\<lambda>acc item. case item of
                    JObject block \<Rightarrow> parseAnthropicBlock marshal now block acc
                  | _ \<Rightarrow> acc) (ps, k) (map JObject blocks) =
     (ps\<lparr>toolResults := toolResults ps @ map (tool_result_message marshal) blocks\<rparr>, k)"
  using assms
proof (induction blocks arbitrary: ps)
  case Nil
  then show ?case by simp
next
  case (Cons block blocks)
  then show ?case by (simp add: parseAnthropicBlock_tool_result)
qed

text \<open>
  C6: a message whose content is a non-empty array of \<^verbatim>\<open>tool_result\<close> blocks converts
  to exactly the flat tool messages of these blocks, one per block and in the blocks'
  order, each with role \<^verbatim>\<open>tool\<close>, the block's \<^verbatim>\<open>tool_use_id\<close> and its content as text;
  no main message (a message with the role of the source message) is put before them, and
  no id is generated.
\<close>

theorem C6_tool_results_only:
  assumes "blocks \<noteq> []"
    and "\<forall>block\<in>set blocks. index_map block ''type'' = JString ''tool_result''"
  shows "ConvertAnthropicMessage marshal now
           \<lparr>msg_Role = role, msg_Content = JArray (map JObject blocks)\<rparr> k =
         (map (tool_result_message marshal) blocks, k) \<and>
         length (fst (ConvertAnthropicMessage marshal now
           \<lparr>msg_Role = role, msg_Content = JArray (map JObject blocks)\<rparr> k)) = length blocks"
  using assms(1)
  by (simp add: ConvertAnthropicMessage_def ParseAnthropicContent_def
      parse_tool_result_blocks [OF assms(2)] no_content_def)

text \<open>C6 at a user message with two \<^verbatim>\<open>tool_result\<close> blocks.\<close>

theorem C6_tool_results_only_witness:
  "ConvertAnthropicMessage (\<lambda>v. None) (\<lambda>k. ''1'')
     \<lparr>msg_Role = ''user'',
      msg_Content = JArray
        [JObject [(''type'', JString ''tool_result''), (''tool_use_id'', JString ''a''),
                  (''content'', JString ''one'')],
         JObject [(''type'', JString ''tool_result''), (''tool_use_id'', JString ''b''),
                  (''content'', JString ''two'')]]\<rparr> 0 =
   ([\<lparr>fm_role = ''tool'', fm_content = ''one'', fm_tool_calls = None, fm_tool_call_id = Some ''a''\<rparr>,
     \<lparr>fm_role = ''tool'', fm_content = ''two'', fm_tool_calls = None, fm_tool_call_id = Some ''b''\<rparr>],
    0)"
  using C6_tool_results_only
    [of "[[(''type'', JString ''tool_result''), (''tool_use_id'', JString ''a''),
           (''content'', JString ''one'')],
          [(''type'', JString ''tool_result''), (''tool_use_id'', JString ''b''),
           (''content'', JString ''two'')]]" "\<lambda>v. None" "\<lambda>k. ''1''" "''user''" 0]
  by (simp add: index_map_def tool_result_message_def StringifyToolResult_def as_string_def)

section \<open>Properties of the tool-call adapters and the response translator\<close>









text \<open>
  C8: on a 2xx upstream answer whose body decodes to a flat response, both handlers
  answer 502 \<^verbatim>\<open>no choices in response\<close> exactly when the response has no choices or its
  first choice has no message, and they answer with a typed-block response exactly in
  the other cases. (A 2xx body that does not decode is refused before, with
  \<^verbatim>\<open>invalid upstream response\<close>.)
\<close>

theorem C8_protocol_error_iff_no_message:
  assumes "200 \<le> statusCode" and "statusCode \<le> 299"
    and "decode respBody = Some openAIResp"
  shows "((HandleAnthropic_reply decode unmarshal now reqModel (Upstream statusCode respBody) =
            BadGateway ''no choices in response'') =
          (resp_Choices openAIResp = [] \<or>
           (\<exists>choice rest. resp_Choices openAIResp = choice # rest \<and> ch_Message choice = None))) \<and>
         ((handleAnthropic_reply decode unmarshal now reqModel (Upstream statusCode respBody) =
            BadGateway ''no choices in response'') =
          (resp_Choices openAIResp = [] \<or>
           (\<exists>choice rest. resp_Choices openAIResp = choice # rest \<and> ch_Message choice = None))) \<and>
         ((\<exists>response.
            HandleAnthropic_reply decode unmarshal now reqModel (Upstream statusCode respBody) =
              Translated response) =
          (\<not> (resp_Choices openAIResp = [] \<or>
           (\<exists>choice rest. resp_Choices openAIResp = choice # rest \<and> ch_Message choice = None)))) \<and>
         ((\<exists>response.
            handleAnthropic_reply decode unmarshal now reqModel (Upstream statusCode respBody) =
              Translated response) =
          (\<not> (resp_Choices openAIResp = [] \<or>
           (\<exists>choice rest. resp_Choices openAIResp = choice # rest \<and> ch_Message choice = None))))"
  using assms
  by (auto simp: HandleAnthropic_reply_def handleAnthropic_reply_def
      split: list.splits option.splits)

text \<open>
  C8 at two answers with status 200: one without choices, one whose first choice has a
  message.
\<close>

theorem C8_protocol_error_witness:
  "HandleAnthropic_reply (\<lambda>body. Some empty_response) (\<lambda>s. None) (\<lambda>k. ''1'') ''m''
     (Upstream 200 ''body'') = BadGateway ''no choices in response'' \<and>
   (\<exists>response. handleAnthropic_reply (\<lambda>body. Some hello_response) (\<lambda>s. None) (\<lambda>k. ''1'') ''m''
     (Upstream 200 ''body'') = Translated response)"
proof -
  have ok: "(200::int) \<le> 200" "(200::int) \<le> 299" by simp_all
  have "resp_Choices empty_response = []"
    by (simp add: empty_response_def)
  moreover have "\<not> (resp_Choices hello_response = [] \<or>
      (\<exists>choice rest. resp_Choices hello_response = choice # rest \<and> ch_Message choice = None))"
    by (simp add: hello_response_def)
  ultimately show ?thesis
    using C8_protocol_error_iff_no_message
        [OF ok, of "\<lambda>body. Some empty_response" "''body''" empty_response "\<lambda>s. None" "\<lambda>k. ''1''" "''m''"]
      C8_protocol_error_iff_no_message
        [OF ok, of "\<lambda>body. Some hello_response" "''body''" hello_response "\<lambda>s. None" "\<lambda>k. ''1''" "''m''"]
    by simp
qed

section \<open>Properties of the streaming handlers\<close>

text \<open>
  C9: for every upstream answer with a 2xx status, the Gin-based
  \<^verbatim>\<open>handleAnthropicStream\<close> answers 200 with the upstream body copied byte for byte and
  writes no typed-block event, whatever the body is; whereas the monolithic
  \<^verbatim>\<open>handleAnthropicStream\<close> answers with the events \<^verbatim>\<open>streamOpenAIToAnthropic\<close> makes of
  the body. On no upstream answer at all does the Gin-based handler write events.
\<close>

theorem C9_gin_stream_is_passthrough:
  assumes "200 \<le> statusCode" and "statusCode \<le> 299"
  shows "gin_handleAnthropicStream_reply (Upstream statusCode body) = Streamed 200 (Copied body) \<and>
     (\<forall>up status events. gin_handleAnthropicStream_reply up \<noteq> Streamed status (Events events)) \<and>
     handleAnthropicStream_reply readSSE now order reqModel (Upstream statusCode body) =
       Streamed 200 (Events (fst (streamOpenAIToAnthropic now reqModel order (readSSE body))))"
  using assms
  by (auto simp: gin_handleAnthropicStream_reply_def handleAnthropicStream_reply_def
      split: upstream.splits)

text \<open>
  C9 at status 200, with a body that the monolithic handler reads as the three chunks of
  the text scenario: the Gin-based handler copies the body, the monolithic one writes the
  seven events.
\<close>

theorem C9_gin_stream_witness:
  "gin_handleAnthropicStream_reply (Upstream 200 ''data: ...'') =
     Streamed 200 (Copied ''data: ...'') \<and>
   handleAnthropicStream_reply
     (\<lambda>body. [Data (Json (Some scenario_chunk1)) False, Data (Json (Some scenario_chunk2)) False,
               Data DoneMarker False])
     (\<lambda>k. ''1'') [] ''m'' (Upstream 200 ''data: ...'') =
     Streamed 200 (Events
       [message_start ''x'' ''m'', content_block_start_text 0, content_block_delta_text 0 ''Hi'',
        content_block_delta_text 0 '' there'', content_block_stop 0,
        message_delta ''end_turn'' 0 None, message_stop])"
proof -
  have ok: "(200::int) \<le> 200" "(200::int) \<le> 299" by simp_all
  have run: "fst (streamOpenAIToAnthropic (\<lambda>k. ''1'') ''m'' []
       [Data (Json (Some scenario_chunk1)) False, Data (Json (Some scenario_chunk2)) False,
        Data DoneMarker False]) =
     [message_start ''x'' ''m'', content_block_start_text 0, content_block_delta_text 0 ''Hi'',
      content_block_delta_text 0 '' there'', content_block_stop 0,
      message_delta ''end_turn'' 0 None, message_stop]"
    by (simp add: streamOpenAIToAnthropic_def reframer_defs scenario_chunk1_def
        scenario_chunk2_def closing_def mapStopReason_def Let_def)
  from C9_gin_stream_is_passthrough
    [OF ok, of "''data: ...''"
       "\<lambda>body. [Data (Json (Some scenario_chunk1)) False,
                 Data (Json (Some scenario_chunk2)) False, Data DoneMarker False]"
       "\<lambda>k. ''1''" "[]" "''m''"]
  show ?thesis by (simp add: run)
qed

end
